theory Spec2Isabelle
  imports Complex_Main
begin

section \<open>Errors and partial arithmetic\<close>

text \<open>
  The Python exceptions the modelled code can meet. A computation that can raise
  returns \<open>py_error + 'a\<close>, with \<open>Inl\<close> for the exception.
\<close>

datatype py_error = IndexError | ZeroDivisionError | ValueError

definition bind_result :: "py_error + 'a \<Rightarrow> ('a \<Rightarrow> py_error + 'b) \<Rightarrow> py_error + 'b" where
  "bind_result r k = (case r of Inl e \<Rightarrow> Inl e | Inr v \<Rightarrow> k v)"

text \<open>
  Division of two numbers. HOL's \<open>a / 0\<close> is \<open>0\<close>; the quotient of the program has no
  value there, so the model says so.
\<close>

definition divide_py :: "real \<Rightarrow> real \<Rightarrow> py_error + real" where
  "divide_py a b = (if b = 0 then Inl ZeroDivisionError else Inr (a / b))"

text \<open>
  The power \<open>b ** e\<close> with a real exponent: defined for a positive base, for base zero
  unless the exponent is negative, and for a negative base when the exponent is a whole
  number.
\<close>

definition power_py :: "real \<Rightarrow> real \<Rightarrow> py_error + real" where
  "power_py b e =
     (if 0 < b then Inr (b powr e)
      else if b = 0 then
        (if e < 0 then Inl ZeroDivisionError else if e = 0 then Inr 1 else Inr 0)
      else if e = of_int \<lfloor>e\<rfloor> then
        Inr ((if even \<lfloor>e\<rfloor> then 1 else - 1) * (\<bar>b\<bar> powr e))
      else Inl ValueError)"

text \<open>A loop that appends one computed item per element and stops at the first exception.\<close>

fun collect :: "('a \<Rightarrow> py_error + 'b) \<Rightarrow> 'a list \<Rightarrow> py_error + 'b list" where
  "collect g [] = Inr []"
| "collect g (x # xs) =
     bind_result (g x) (\<lambda>v. bind_result (collect g xs) (\<lambda>vs. Inr (v # vs)))"

text \<open>Python's \<open>sum\<close>: the items are added from the left, starting at zero.\<close>

definition sum_py :: "real list \<Rightarrow> real" where
  "sum_py xs = foldl (+) 0 xs"


section \<open>model.py: the equations of the model\<close>

text \<open>
  The module declares the number of cities, the parameters \<open>f\<close> and \<open>phi\<close>, the
  deferred vectors \<open>theta\<close>, \<open>S\<close>, \<open>Y\<close>, \<open>P\<close>, \<open>W\<close>, \<open>M\<close> (indexable at every position)
  and the matrix symbol \<open>delta\<close> of shape \<open>num_cities \<times> num_cities\<close>. Each function
  below builds an expression over these symbols; the embedding gives the value of the
  expression under a valuation of the symbols, which is a record of their values. The
  source fixes \<open>num_cities = 100\<close>; the record carries it so that the equations can be
  read at every city count.
\<close>

record valuation =
  num_cities :: nat
  sym_f :: real
  sym_phi :: real
  elasticity_substitution :: "nat \<Rightarrow> real"
  economic_distance :: "nat \<Rightarrow> nat \<Rightarrow> real"
  labor_supply :: "nat \<Rightarrow> real"
  nominal_gdp :: "nat \<Rightarrow> real"
  price_level :: "nat \<Rightarrow> real"
  nominal_wage :: "nat \<Rightarrow> real"
  number_firms :: "nat \<Rightarrow> real"

text \<open>An entry of the matrix symbol: an index outside the declared shape is refused.\<close>

definition economic_distance_at :: "valuation \<Rightarrow> nat \<Rightarrow> nat \<Rightarrow> py_error + real" where
  "economic_distance_at v h j =
     (if h < num_cities v \<and> j < num_cities v then Inr (economic_distance v h j)
      else Inl IndexError)"

definition labor_productivity :: "valuation \<Rightarrow> nat \<Rightarrow> nat \<Rightarrow> py_error + real" where
  "labor_productivity v h j =
     bind_result (economic_distance_at v h j) (\<lambda>d. divide_py (sym_phi v) d)"

definition labor_demand :: "valuation \<Rightarrow> real \<Rightarrow> nat \<Rightarrow> nat \<Rightarrow> py_error + real" where
  "labor_demand v quantity h j =
     bind_result (labor_productivity v h j) (\<lambda>lp.
     bind_result (divide_py quantity lp) (\<lambda>q. Inr (q + sym_f v)))"

definition cost :: "valuation \<Rightarrow> real \<Rightarrow> nat \<Rightarrow> nat \<Rightarrow> py_error + real" where
  "cost v quantity h j =
     bind_result (labor_demand v quantity h j) (\<lambda>l. Inr (l * nominal_wage v h))"

definition marginal_costs :: "valuation \<Rightarrow> nat \<Rightarrow> nat \<Rightarrow> py_error + real" where
  "marginal_costs v h j =
     bind_result (labor_productivity v h j) (\<lambda>lp. divide_py (nominal_wage v h) lp)"

definition mark_up :: "valuation \<Rightarrow> nat \<Rightarrow> py_error + real" where
  "mark_up v j =
     divide_py (elasticity_substitution v j) (elasticity_substitution v j - 1)"

definition optimal_price :: "valuation \<Rightarrow> nat \<Rightarrow> nat \<Rightarrow> py_error + real" where
  "optimal_price v h j =
     bind_result (mark_up v j) (\<lambda>mu.
     bind_result (marginal_costs v h j) (\<lambda>mc. Inr (mu * mc)))"

definition real_gdp :: "valuation \<Rightarrow> nat \<Rightarrow> py_error + real" where
  "real_gdp v i = divide_py (nominal_gdp v i) (price_level v i)"

definition relative_price :: "valuation \<Rightarrow> real \<Rightarrow> nat \<Rightarrow> py_error + real" where
  "relative_price v price j = divide_py price (price_level v j)"

definition quantity_demand :: "valuation \<Rightarrow> real \<Rightarrow> nat \<Rightarrow> py_error + real" where
  "quantity_demand v price j =
     bind_result (relative_price v price j) (\<lambda>rp.
     bind_result (power_py rp (- elasticity_substitution v j)) (\<lambda>pw.
     bind_result (real_gdp v j) (\<lambda>g. Inr (pw * g))))"

definition revenue :: "real \<Rightarrow> real \<Rightarrow> real" where
  "revenue price quantity = price * quantity"

definition total_cost :: "valuation \<Rightarrow> nat \<Rightarrow> py_error + real" where
  "total_cost v h =
     bind_result
       (collect (\<lambda>j.
          bind_result (optimal_price v h j) (\<lambda>p_star.
          bind_result (quantity_demand v p_star j) (\<lambda>q_star.
          cost v q_star h j)))
        [0..<num_cities v])
       (\<lambda>individual_costs. Inr (sum_py individual_costs))"

definition total_exports :: "valuation \<Rightarrow> nat \<Rightarrow> py_error + real" where
  "total_exports v h =
     bind_result
       (collect (\<lambda>j.
          bind_result (optimal_price v h j) (\<lambda>p_star.
          bind_result (quantity_demand v p_star j) (\<lambda>q_star.
          Inr (number_firms v h * revenue p_star q_star))))
        [0..<num_cities v])
       (\<lambda>individual_exports. Inr (sum_py individual_exports))"

definition total_imports :: "valuation \<Rightarrow> nat \<Rightarrow> py_error + real" where
  "total_imports v h =
     bind_result
       (collect (\<lambda>j.
          bind_result (optimal_price v j h) (\<lambda>p_star.
          bind_result (quantity_demand v p_star h) (\<lambda>q_star.
          Inr (number_firms v j * revenue p_star q_star))))
        [0..<num_cities v])
       (\<lambda>individual_imports. Inr (sum_py individual_imports))"

definition total_labor_demand :: "valuation \<Rightarrow> nat \<Rightarrow> py_error + real" where
  "total_labor_demand v h =
     bind_result
       (collect (\<lambda>j.
          bind_result (optimal_price v h j) (\<lambda>p_star.
          bind_result (quantity_demand v p_star j) (\<lambda>q_star.
          labor_demand v q_star h j)))
        [0..<num_cities v])
       (\<lambda>individual_labor_demands. Inr (sum_py individual_labor_demands))"

definition total_revenue :: "valuation \<Rightarrow> nat \<Rightarrow> py_error + real" where
  "total_revenue v h =
     bind_result
       (collect (\<lambda>j.
          bind_result (optimal_price v h j) (\<lambda>p_star.
          bind_result (quantity_demand v p_star j) (\<lambda>q_star.
          Inr (revenue p_star q_star))))
        [0..<num_cities v])
       (\<lambda>individual_revenues. Inr (sum_py individual_revenues))"

definition total_profits :: "valuation \<Rightarrow> nat \<Rightarrow> py_error + real" where
  "total_profits v h =
     bind_result (total_revenue v h) (\<lambda>r.
     bind_result (total_cost v h) (\<lambda>c. Inr (r - c)))"

definition goods_market_clearing :: "valuation \<Rightarrow> nat \<Rightarrow> py_error + real" where
  "goods_market_clearing v h =
     bind_result (total_exports v h) (\<lambda>ex.
     bind_result (total_imports v h) (\<lambda>im. Inr (ex - im)))"

definition labor_market_clearing :: "valuation \<Rightarrow> nat \<Rightarrow> py_error + real" where
  "labor_market_clearing v h =
     bind_result (total_labor_demand v h) (\<lambda>ld. Inr (labor_supply v h - ld))"

definition resource_constraint :: "valuation \<Rightarrow> nat \<Rightarrow> py_error + real" where
  "resource_constraint v h =
     Inr (nominal_gdp v h - labor_supply v h * nominal_wage v h)"


text \<open>
  Modelled from the spec: the list of residual expressions of the model. The code that
  assembles the list (the symbolic system read by \<open>Solver\<close> and \<open>model.numeric_system\<close>
  read by \<open>sandbox.py\<close>) is not among the source files; the spec describes it as the
  list holding, for every city \<open>h\<close>, the goods-market-clearing, the
  labor-market-clearing and the resource-constraint expression.
\<close>

definition build_equations :: "nat \<Rightarrow> (valuation \<Rightarrow> py_error + real) list" where
  "build_equations n =
     concat (map (\<lambda>h. [\<lambda>v. goods_market_clearing v h,
                         \<lambda>v. labor_market_clearing v h,
                         \<lambda>v. resource_constraint v h]) [0..<n])"


section \<open>Arrays\<close>

type_synonym array = "real list"

text \<open>
  A slice \<open>xs[lo:hi]\<close> with step one. A negative bound counts from the end, and every
  bound is clipped to the list; \<open>None\<close> is an omitted bound.
\<close>

definition slice_index :: "nat \<Rightarrow> int \<Rightarrow> nat" where
  "slice_index n i = (if i < 0 then nat (max 0 (int n + i)) else min n (nat i))"

definition slice :: "'a list \<Rightarrow> int option \<Rightarrow> int option \<Rightarrow> 'a list" where
  "slice xs lo hi =
     (let n = length xs;
          a = (case lo of None \<Rightarrow> 0 | Some i \<Rightarrow> slice_index n i);
          b = (case hi of None \<Rightarrow> n | Some i \<Rightarrow> slice_index n i)
      in take (b - a) (drop a xs))"

text \<open>
  \<open>np.ones(k)\<close>. The source writes \<open>np.ones(1.0)\<close>, with a floating-point count: the
  NumPy of the time of the code takes it as the count 1 and gives the array holding a
  single one.
\<close>

definition np_ones :: "nat \<Rightarrow> array" where
  "np_ones k = replicate k 1"

definition np_repeat :: "real \<Rightarrow> int \<Rightarrow> py_error + array" where
  "np_repeat a k = (if k < 0 then Inl ValueError else Inr (replicate (nat k) a))"

text \<open>
  \<open>np.empty(n)\<close> allocates without initialising: the contents are whatever the memory
  held, given here by \<open>junk\<close>.
\<close>

definition np_empty :: "(nat \<Rightarrow> real) \<Rightarrow> int \<Rightarrow> py_error + array" where
  "np_empty junk n = (if n < 0 then Inl ValueError else Inr (map junk [0..<nat n]))"

text \<open>The assignment \<open>xs[i] = a\<close>.\<close>

definition setitem :: "'a list \<Rightarrow> nat \<Rightarrow> 'a \<Rightarrow> py_error + 'a list" where
  "setitem xs i a = (if i < length xs then Inr (xs[i := a]) else Inl IndexError)"

fun fold_result :: "('a \<Rightarrow> 's \<Rightarrow> py_error + 's) \<Rightarrow> 'a list \<Rightarrow> 's \<Rightarrow> py_error + 's" where
  "fold_result g [] s = Inr s"
| "fold_result g (a # as) s = bind_result (g a s) (fold_result g as)"


section \<open>solvers.py: the initial guess\<close>

text \<open>
  The classes \<open>models.Model\<close> and \<open>models.SingleCityModel\<close> are not among the source
  files. A model is the record of the attributes the solver reads; a single-city model is
  the record of the attributes and methods the guess reads, and its constructor is a
  parameter \<open>mk\<close> of the functions below.
\<close>

record ('p, 'sa, 'se) model =
  model_N :: int
  model_params :: 'p
  model_population :: array
  model_physical_distances :: "real list list"
  symbolic_args :: 'sa
  symbolic_system :: 'se
  symbolic_jacobian :: 'se

record 'p single_city_model =
  city_population :: array
  city_params :: 'p
  compute_nominal_gdp :: "array \<Rightarrow> array \<Rightarrow> 'p \<Rightarrow> real"
  compute_nominal_wage :: "array \<Rightarrow> array \<Rightarrow> 'p \<Rightarrow> real"
  compute_number_firms :: "array \<Rightarrow> array \<Rightarrow> 'p \<Rightarrow> real"

record ('p, 'sa, 'se) islands_guess =
  guess_model :: "('p, 'sa, 'se) model"
  city_cache :: "'p single_city_model option"

definition IslandsGuess :: "('p, 'sa, 'se) model \<Rightarrow> ('p, 'sa, 'se) islands_guess" where
  "IslandsGuess m = \<lparr>guess_model = m, city_cache = None\<rparr>"

text \<open>The property \<open>city\<close>: the single-city model, created on the first access.\<close>

definition city ::
  "('p \<Rightarrow> real list list \<Rightarrow> array \<Rightarrow> 'p single_city_model) \<Rightarrow> ('p, 'sa, 'se) islands_guess
     \<Rightarrow> 'p single_city_model \<times> ('p, 'sa, 'se) islands_guess" where
  "city mk g =
     (case city_cache g of
        None \<Rightarrow>
          (let c = mk (model_params (guess_model g))
                      (model_physical_distances (guess_model g))
                      (model_population (guess_model g))
           in (c, g\<lparr>city_cache := Some c\<rparr>))
      | Some c \<Rightarrow> (c, g))"

text \<open>The body of the loop of \<open>guess\<close>, for city \<open>h\<close> with its population.\<close>

definition guess_step ::
  "'p single_city_model \<Rightarrow> nat \<times> real \<Rightarrow> array \<times> array \<times> array
     \<Rightarrow> py_error + array \<times> array \<times> array" where
  "guess_step c hp acc =
     (case hp of (h, population) \<Rightarrow> case acc of (Y0, W0, M0) \<Rightarrow>
        bind_result
          (setitem Y0 h (compute_nominal_gdp c (np_ones 1) [population] (city_params c)))
          (\<lambda>Y1.
        bind_result
          (setitem W0 h (compute_nominal_wage c (np_ones 1) [population] (city_params c)))
          (\<lambda>W1.
        bind_result
          (setitem M0 h (compute_number_firms c (np_ones 1) [population] (city_params c)))
          (\<lambda>M1. Inr (Y1, W1, M1)))))"

text \<open>
  The property \<open>guess\<close>. \<open>junk k\<close> is the uninitialised content of the \<open>k\<close>-th array
  that \<open>np.empty\<close> allocates. The property \<open>city\<close> is read again in every round of the
  loop; after the first read it returns the cached object, so it is read once here.
\<close>

definition guess ::
  "('p \<Rightarrow> real list list \<Rightarrow> array \<Rightarrow> 'p single_city_model) \<Rightarrow> (nat \<Rightarrow> nat \<Rightarrow> real)
     \<Rightarrow> ('p, 'sa, 'se) islands_guess \<Rightarrow> py_error + array \<times> ('p, 'sa, 'se) islands_guess" where
  "guess mk junk g =
     (let n = model_N (guess_model g) in
      bind_result (np_repeat 1 (n - 1)) (\<lambda>P0.
      bind_result (np_empty (junk 0) n) (\<lambda>Y0.
      bind_result (np_empty (junk 1) n) (\<lambda>W0.
      bind_result (np_empty (junk 2) n) (\<lambda>M0.
        (case city mk g of (c, g') \<Rightarrow>
           bind_result
             (fold_result (guess_step c)
                (enumerate 0 (slice (city_population c) None (Some n))) (Y0, W0, M0))
             (\<lambda>r. case r of (Y1, W1, M1) \<Rightarrow> Inr (P0 @ Y1 @ W1 @ M1, g'))))))))"


section \<open>solvers.py: the solver\<close>

text \<open>
  The compiled functions are called with the four blocks, the population and the
  parameters of the model. \<open>sym.lambdify\<close> is a parameter \<open>lam\<close> of the functions below:
  from the symbolic arguments and a symbolic expression it gives the behaviour of the
  compiled function. Every call of it creates a new function object; the list of the
  calls made so far is part of the state, and a new object is numbered by its position
  in this list.
\<close>

record 'p numeric_args =
  arg_P :: array
  arg_Y :: array
  arg_W :: array
  arg_M :: array
  arg_population :: array
  arg_params :: 'p

record 'p function_object =
  object_id :: nat
  call :: "'p numeric_args \<Rightarrow> py_error + real list list"

datatype lambdify_call = Lambdify_jacobian | Lambdify_system

record ('p, 'sa, 'se) solver =
  solver_model :: "('p, 'sa, 'se) model"
  initial_guess :: "('p, 'sa, 'se) islands_guess"
  numeric_jacobian_cache :: "'p function_object option"
  numeric_system_cache :: "'p function_object option"

definition Solver :: "('p, 'sa, 'se) model \<Rightarrow> ('p, 'sa, 'se) solver" where
  "Solver m =
     \<lparr>solver_model = m, initial_guess = IslandsGuess m,
      numeric_jacobian_cache = None, numeric_system_cache = None\<rparr>"

definition clear_cache :: "('p, 'sa, 'se) solver \<Rightarrow> ('p, 'sa, 'se) solver" where
  "clear_cache s = s\<lparr>numeric_jacobian_cache := None, numeric_system_cache := None\<rparr>"

definition numeric_jacobian ::
  "('sa \<Rightarrow> 'se \<Rightarrow> 'p numeric_args \<Rightarrow> py_error + real list list)
     \<Rightarrow> ('p, 'sa, 'se) solver \<times> lambdify_call list
     \<Rightarrow> 'p function_object \<times> ('p, 'sa, 'se) solver \<times> lambdify_call list" where
  "numeric_jacobian lam st =
     (case st of (s, calls) \<Rightarrow>
        (case numeric_jacobian_cache s of
           None \<Rightarrow>
             (let fn = \<lparr>object_id = length calls,
                        call = lam (symbolic_args (solver_model s))
                                   (symbolic_jacobian (solver_model s))\<rparr>
              in (fn, s\<lparr>numeric_jacobian_cache := Some fn\<rparr>, calls @ [Lambdify_jacobian]))
         | Some fn \<Rightarrow> (fn, s, calls)))"

definition numeric_system ::
  "('sa \<Rightarrow> 'se \<Rightarrow> 'p numeric_args \<Rightarrow> py_error + real list list)
     \<Rightarrow> ('p, 'sa, 'se) solver \<times> lambdify_call list
     \<Rightarrow> 'p function_object \<times> ('p, 'sa, 'se) solver \<times> lambdify_call list" where
  "numeric_system lam st =
     (case st of (s, calls) \<Rightarrow>
        (case numeric_system_cache s of
           None \<Rightarrow>
             (let fn = \<lparr>object_id = length calls,
                        call = lam (symbolic_args (solver_model s))
                                   (symbolic_system (solver_model s))\<rparr>
              in (fn, s\<lparr>numeric_system_cache := Some fn\<rparr>, calls @ [Lambdify_system]))
         | Some fn \<Rightarrow> (fn, s, calls)))"

definition system ::
  "('sa \<Rightarrow> 'se \<Rightarrow> 'p numeric_args \<Rightarrow> py_error + real list list)
     \<Rightarrow> ('p, 'sa, 'se) solver \<times> lambdify_call list \<Rightarrow> array
     \<Rightarrow> (py_error + array) \<times> ('p, 'sa, 'se) solver \<times> lambdify_call list" where
  "system lam st X =
     (let m = solver_model (fst st);
          P = np_ones 1 @ slice X None (Some (model_N m - 1));
          Y = slice X (Some (model_N m - 1)) (Some (2 * model_N m - 1));
          W = slice X (Some (2 * model_N m - 1)) (Some (3 * model_N m - 1));
          M = slice X (Some (3 * model_N m - 1)) None
      in case numeric_system lam st of (fn, st') \<Rightarrow>
           (bind_result
              (call fn \<lparr>arg_P = P, arg_Y = Y, arg_W = W, arg_M = M,
                        arg_population = model_population m, arg_params = model_params m\<rparr>)
              (\<lambda>residual. Inr (concat residual)),
            st'))"

definition jacobian ::
  "('sa \<Rightarrow> 'se \<Rightarrow> 'p numeric_args \<Rightarrow> py_error + real list list)
     \<Rightarrow> ('p, 'sa, 'se) solver \<times> lambdify_call list \<Rightarrow> array
     \<Rightarrow> (py_error + real list list) \<times> ('p, 'sa, 'se) solver \<times> lambdify_call list" where
  "jacobian lam st X =
     (let m = solver_model (fst st);
          P = np_ones 1 @ slice X None (Some (model_N m - 1));
          Y = slice X (Some (model_N m - 1)) (Some (2 * model_N m - 1));
          W = slice X (Some (2 * model_N m - 1)) (Some (3 * model_N m - 1));
          M = slice X (Some (3 * model_N m - 1)) None
      in case numeric_jacobian lam st of (fn, st') \<Rightarrow>
           (call fn \<lparr>arg_P = P, arg_Y = Y, arg_W = W, arg_M = M,
                     arg_population = model_population m, arg_params = model_params m\<rparr>,
            st'))"




section \<open>sandbox.py\<close>

text \<open>
  The compiled functions \<open>model.numeric_system\<close> and \<open>model.numeric_jacobian\<close> are not
  among the source files; they are the parameter \<open>compiled\<close>. \<open>n\<close> is the module's
  \<open>num_cities\<close>.
\<close>

definition equilibrium_system ::
  "(array \<Rightarrow> array \<Rightarrow> array \<Rightarrow> array \<Rightarrow> real \<Rightarrow> real \<Rightarrow> real \<Rightarrow> real \<Rightarrow> array
      \<Rightarrow> py_error + real list list)
     \<Rightarrow> int \<Rightarrow> array \<Rightarrow> real \<Rightarrow> real \<Rightarrow> real \<Rightarrow> real \<Rightarrow> array \<Rightarrow> py_error + array" where
  "equilibrium_system compiled n X f beta phi tau theta =
     (let P = np_ones 1 @ slice X None (Some (n - 1));
          Y = slice X (Some (n - 1)) (Some (2 * n - 1));
          W = slice X (Some (2 * n - 1)) (Some (3 * n - 1));
          M = slice X (Some (3 * n - 1)) None
      in bind_result (compiled P Y W M f beta phi tau theta)
           (\<lambda>residual. Inr (concat residual)))"

definition equilibrium_jacobian ::
  "(array \<Rightarrow> array \<Rightarrow> array \<Rightarrow> array \<Rightarrow> real \<Rightarrow> real \<Rightarrow> real \<Rightarrow> real \<Rightarrow> array
      \<Rightarrow> py_error + real list list)
     \<Rightarrow> int \<Rightarrow> array \<Rightarrow> real \<Rightarrow> real \<Rightarrow> real \<Rightarrow> real \<Rightarrow> array
     \<Rightarrow> py_error + real list list" where
  "equilibrium_jacobian compiled n X f beta phi tau theta =
     (let P = np_ones 1 @ slice X None (Some (n - 1));
          Y = slice X (Some (n - 1)) (Some (2 * n - 1));
          W = slice X (Some (2 * n - 1)) (Some (3 * n - 1));
          M = slice X (Some (3 * n - 1)) None
      in compiled P Y W M f beta phi tau theta)"


section \<open>physical\_distance.py\<close>

text \<open>
  The data frame is the list of its rows, each the label of the row (\<open>GeoFips\<close>) with
  its coordinates. \<open>data.ix[label]\<close> gives the coordinates of the row with that label;
  when the label is not the label of exactly one row, no coordinate pair comes out of it.
\<close>

definition ix :: "('k \<times> 'c) list \<Rightarrow> 'k \<Rightarrow> py_error + 'c" where
  "ix data k =
     (case filter (\<lambda>r. fst r = k) data of [r] \<Rightarrow> Inr (snd r) | _ \<Rightarrow> Inl ValueError)"

definition np_zeros2 :: "nat \<Rightarrow> real list list" where
  "np_zeros2 n = replicate n (replicate n 0)"

text \<open>The assignment \<open>m[i, j] = a\<close>.\<close>

definition setitem2 :: "'a list list \<Rightarrow> nat \<Rightarrow> nat \<Rightarrow> 'a \<Rightarrow> py_error + 'a list list" where
  "setitem2 m i j a =
     (if i < length m \<and> j < length (m ! i) then Inr (m[i := (m ! i)[j := a]])
      else Inl IndexError)"

text \<open>
  The body of the inner loop. The two distance functions of \<open>geopy\<close> are the parameters
  \<open>great_circle\<close> and \<open>vincenty\<close>, giving kilometers.
\<close>

definition distance_cell ::
  "('c \<Rightarrow> 'c \<Rightarrow> py_error + real) \<Rightarrow> ('c \<Rightarrow> 'c \<Rightarrow> py_error + real) \<Rightarrow> ('k \<times> 'c) list
     \<Rightarrow> nat \<times> 'k \<Rightarrow> nat \<times> 'k \<Rightarrow> real list list \<times> real list list
     \<Rightarrow> py_error + real list list \<times> real list list" where
  "distance_cell great_circle vincenty data r1 r2 acc =
     (case r1 of (i, geo_fips_1) \<Rightarrow> case r2 of (j, geo_fips_2) \<Rightarrow>
      case acc of (great_circle_distance, vincenty_distance) \<Rightarrow>
        bind_result (ix data geo_fips_1) (\<lambda>tmp_coords_1.
        bind_result (ix data geo_fips_2) (\<lambda>tmp_coords_2.
        bind_result (great_circle tmp_coords_1 tmp_coords_2) (\<lambda>km1.
        bind_result (setitem2 great_circle_distance i j km1) (\<lambda>g1.
        bind_result (vincenty tmp_coords_1 tmp_coords_2) (\<lambda>km2.
        bind_result (setitem2 vincenty_distance i j km2) (\<lambda>v1.
        Inr (g1, v1))))))))"

definition compute_physical_distance ::
  "('c \<Rightarrow> 'c \<Rightarrow> py_error + real) \<Rightarrow> ('c \<Rightarrow> 'c \<Rightarrow> py_error + real) \<Rightarrow> ('k \<times> 'c) list
     \<Rightarrow> py_error + real list list \<times> real list list" where
  "compute_physical_distance great_circle vincenty data =
     (let n = length data;
          great_circle_distance = np_zeros2 n;
          vincenty_distance = np_zeros2 n
      in fold_result
           (\<lambda>r1. fold_result (distance_cell great_circle vincenty data r1)
                    (enumerate 0 (map fst data)))
           (enumerate 0 (map fst data))
           (great_circle_distance, vincenty_distance))"

text \<open>
  \<open>m.max()\<close>: the largest entry; an array without entries has none.
\<close>

definition np_max :: "real list list \<Rightarrow> py_error + real" where
  "np_max m = (case concat m of [] \<Rightarrow> Inl ValueError | a # as \<Rightarrow> Inr (fold max as a))"

text \<open>
  The quotient of two floating-point numbers of an array: division by zero raises
  nothing, and its result (an infinity or not-a-number) is no real number, \<open>None\<close> here.
\<close>

definition np_true_divide :: "real \<Rightarrow> real \<Rightarrow> real option" where
  "np_true_divide a b = (if b = 0 then None else Some (a / b))"

text \<open>The normalisation \<open>m / m.max()\<close> at the end of the module.\<close>

definition normed :: "real list list \<Rightarrow> py_error + real option list list" where
  "normed m = bind_result (np_max m) (\<lambda>mx. Inr (map (map (\<lambda>a. np_true_divide a mx)) m))"

definition normed_vincenty_distance ::
  "('c \<Rightarrow> 'c \<Rightarrow> py_error + real) \<Rightarrow> ('c \<Rightarrow> 'c \<Rightarrow> py_error + real) \<Rightarrow> ('k \<times> 'c) list
     \<Rightarrow> py_error + real option list list" where
  "normed_vincenty_distance great_circle vincenty data =
     bind_result (compute_physical_distance great_circle vincenty data)
       (\<lambda>physical_distance_matrices. normed (snd physical_distance_matrices))"

definition normed_great_circle_distance ::
  "('c \<Rightarrow> 'c \<Rightarrow> py_error + real) \<Rightarrow> ('c \<Rightarrow> 'c \<Rightarrow> py_error + real) \<Rightarrow> ('k \<times> 'c) list
     \<Rightarrow> py_error + real option list list" where
  "normed_great_circle_distance great_circle vincenty data =
     bind_result (compute_physical_distance great_circle vincenty data)
       (\<lambda>physical_distance_matrices. normed (fst physical_distance_matrices))"


section \<open>models.py: the construction of a model\<close>

text \<open>
  The parameters of a model, named as in \<open>solvers.py\<close> and \<open>sandbox.py\<close>: the fixed
  cost, the scale of labor supply, the base productivity, the trade cost and the
  elasticity of substitution of every city.
\<close>

record parameters =
  param_f :: real
  param_beta :: real
  param_phi :: real
  param_tau :: real
  param_theta :: array





section \<open>Sequences of accesses to the compiled functions\<close>

text \<open>
  What a caller can do with the two cached properties of a solver: read the compiled
  residual function, read the compiled Jacobian function, or clear the cache. A run of
  such steps gives what each step returned and the final state.
\<close>

datatype access = Get_numeric_system | Get_numeric_jacobian | Clear_cache

definition access_step ::
  "('sa \<Rightarrow> 'se \<Rightarrow> 'p numeric_args \<Rightarrow> py_error + real list list) \<Rightarrow> access
     \<Rightarrow> ('p, 'sa, 'se) solver \<times> lambdify_call list
     \<Rightarrow> 'p function_object option \<times> ('p, 'sa, 'se) solver \<times> lambdify_call list" where
  "access_step lam a st =
     (case a of
        Get_numeric_system \<Rightarrow> (case numeric_system lam st of (fn, st') \<Rightarrow> (Some fn, st'))
      | Get_numeric_jacobian \<Rightarrow> (case numeric_jacobian lam st of (fn, st') \<Rightarrow> (Some fn, st'))
      | Clear_cache \<Rightarrow> (None, clear_cache (fst st), snd st))"

fun run_accesses ::
  "('sa \<Rightarrow> 'se \<Rightarrow> 'p numeric_args \<Rightarrow> py_error + real list list) \<Rightarrow> access list
     \<Rightarrow> ('p, 'sa, 'se) solver \<times> lambdify_call list
     \<Rightarrow> 'p function_object option list \<times> ('p, 'sa, 'se) solver \<times> lambdify_call list" where
  "run_accesses lam [] st = ([], st)"
| "run_accesses lam (a # as) st =
     (case access_step lam a st of (r, st') \<Rightarrow>
        (case run_accesses lam as st' of (rs, st'') \<Rightarrow> (r # rs, st'')))"


section \<open>Predicates on distance matrices\<close>

text \<open>
  A matrix is square of size \<open>n\<close>; and the cell \<open>(i, j)\<close> of a matrix holds the
  distance that \<open>metric\<close> gives for the coordinates of the rows \<open>i\<close> and \<open>j\<close> of the data.
\<close>

definition is_square :: "nat \<Rightarrow> 'a list list \<Rightarrow> bool" where
  "is_square n m \<longleftrightarrow> length m = n \<and> (\<forall>i<n. length (m ! i) = n)"

definition cell_computed ::
  "('c \<Rightarrow> 'c \<Rightarrow> py_error + real) \<Rightarrow> ('k \<times> 'c) list \<Rightarrow> real list list \<Rightarrow> nat \<Rightarrow> nat \<Rightarrow> bool" where
  "cell_computed metric data m i j \<longleftrightarrow>
     (\<exists>c1 c2. ix data (fst (data ! i)) = Inr c1 \<and> ix data (fst (data ! j)) = Inr c2 \<and>
        metric c1 c2 = Inr (m ! i ! j))"

text \<open>
  What the claim asks of a distance function, of a distance matrix for \<open>n\<close> cities and
  of a normalised matrix.
\<close>

definition metric_like :: "('c \<Rightarrow> 'c \<Rightarrow> py_error + real) \<Rightarrow> bool" where
  "metric_like metric \<longleftrightarrow>
     (\<forall>a b. metric a b = metric b a) \<and>
     (\<forall>a b d. metric a b = Inr d \<longrightarrow> 0 \<le> d) \<and>
     (\<forall>a d. metric a a = Inr d \<longrightarrow> d = 0)"

definition distance_matrix :: "nat \<Rightarrow> real list list \<Rightarrow> bool" where
  "distance_matrix n m \<longleftrightarrow>
     is_square n m \<and> (\<forall>i<n. m ! i ! i = 0 \<and> (\<forall>j<n. 0 \<le> m ! i ! j \<and> m ! i ! j = m ! j ! i))"

definition unit_normalised :: "nat \<Rightarrow> real option list list \<Rightarrow> bool" where
  "unit_normalised n nm \<longleftrightarrow>
     is_square n nm \<and>
     (\<forall>i<n. \<forall>j<n. \<exists>a. nm ! i ! j = Some a \<and> 0 \<le> a \<and> a \<le> 1) \<and>
     (\<exists>i<n. \<exists>j<n. nm ! i ! j = Some 1)"


section \<open>Example inputs\<close>

text \<open>A valuation of the symbols for two cities.\<close>

definition example_valuation :: valuation where
  "example_valuation =
     \<lparr>num_cities = 2, sym_f = 1, sym_phi = 4,
      elasticity_substitution = (\<lambda>j. 10),
      economic_distance = (\<lambda>h j. 1),
      labor_supply = (\<lambda>h. 1),
      nominal_gdp = (\<lambda>h. 3),
      price_level = (\<lambda>h. 1),
      nominal_wage = (\<lambda>h. 2),
      number_firms = (\<lambda>h. 1)\<rparr>"

text \<open>
  Parameters in which the elasticity of substitution of both cities is one, and the
  record of a model of two cities with these parameters.
\<close>

definition example_params :: parameters where
  "example_params =
     \<lparr>param_f = 1, param_beta = 2, param_phi = 4, param_tau = 0, param_theta = [1, 1]\<rparr>"

definition example_model :: "(parameters, unit, unit) model" where
  "example_model =
     \<lparr>model_N = 2, model_params = example_params, model_population = [3, 5],
      model_physical_distances = [[0, 1], [1, 0]],
      symbolic_args = (), symbolic_system = (), symbolic_jacobian = ()\<rparr>"

text \<open>
  Stand-ins for the code outside the source files, used only to run the functions on the
  example: a single-city model with simple closed forms, a compiler whose functions return
  the price vector they are given, uninitialised memory holding zeros, and a root finder
  that stops at once, reporting failure at the starting point.
\<close>

definition example_city :: "parameters \<Rightarrow> real list list \<Rightarrow> array \<Rightarrow> parameters single_city_model" where
  "example_city p d pop =
     \<lparr>city_population = pop, city_params = p,
      compute_nominal_gdp = (\<lambda>P L q. param_beta q * sum_list L),
      compute_nominal_wage = (\<lambda>P L q. sum_list P),
      compute_number_firms = (\<lambda>P L q. sum_list L / param_f q)\<rparr>"

definition example_lambdify :: "unit \<Rightarrow> unit \<Rightarrow> parameters numeric_args \<Rightarrow> py_error + real list list" where
  "example_lambdify a e args = Inr [arg_P args]"

definition example_junk :: "nat \<Rightarrow> nat \<Rightarrow> real" where
  "example_junk k i = 0"


definition example_accesses :: "access list" where
  "example_accesses = [Get_numeric_system, Get_numeric_jacobian, Get_numeric_system]"

definition example_system_fn :: "parameters function_object" where
  "example_system_fn = \<lparr>object_id = 0, call = example_lambdify () ()\<rparr>"

definition example_jacobian_fn :: "parameters function_object" where
  "example_jacobian_fn = \<lparr>object_id = 1, call = example_lambdify () ()\<rparr>"

definition example_cached_solver :: "(parameters, unit, unit) solver" where
  "example_cached_solver =
     (Solver example_model)\<lparr>numeric_jacobian_cache := Some example_jacobian_fn,
                             numeric_system_cache := Some example_system_fn\<rparr>"


definition example_X :: array where
  "example_X = [7, 6, 10, 1, 1, 3, 5]"

text \<open>
  A stand-in for the distance functions of \<open>geopy\<close>, and data frames of one city and
  of two cities.
\<close>

definition example_metric :: "real \<times> real \<Rightarrow> real \<times> real \<Rightarrow> py_error + real" where
  "example_metric a b = Inr (\<bar>fst a - fst b\<bar> + \<bar>snd a - snd b\<bar>)"

definition example_one_city :: "(nat \<times> real \<times> real) list" where
  "example_one_city = [(10180, (32, - 99))]"

definition example_two_cities :: "(nat \<times> real \<times> real) list" where
  "example_two_cities = [(10180, (32, - 99)), (10420, (35, - 95))]"


section \<open>Verified properties\<close>

subsection \<open>The residual expressions\<close>

lemma build_equations_Suc:
  "build_equations (Suc n) =
     build_equations n @ [\<lambda>v. goods_market_clearing v n,
                          \<lambda>v. labor_market_clearing v n,
                          \<lambda>v. resource_constraint v n]"
  by (simp add: build_equations_def)

lemma length_build_equations: "length (build_equations n) = 3 * n"
  by (induction n) (simp_all add: build_equations_Suc, simp add: build_equations_def)

lemma nth_build_equations:
  "h < n \<Longrightarrow>
     build_equations n ! (3 * h) = (\<lambda>v. goods_market_clearing v h) \<and>
     build_equations n ! (3 * h + 1) = (\<lambda>v. labor_market_clearing v h) \<and>
     build_equations n ! (3 * h + 2) = (\<lambda>v. resource_constraint v h)"
proof (induction n)
  case 0
  then show ?case by simp
next
  case (Suc n)
  show ?case
  proof (cases "h < n")
    case True
    then have "3 * h + 2 < length (build_equations n)"
      by (simp add: length_build_equations)
    with Suc.IH [OF True] show ?thesis
      by (simp add: build_equations_Suc nth_append)
  next
    case False
    with Suc.prems have "h = n" by simp
    then show ?thesis
      by (simp add: build_equations_Suc nth_append length_build_equations)
  qed
qed

text \<open>
  Claim C4. For a model of \<open>n\<close> cities the list of residual expressions has exactly
  \<open>3 * n\<close> entries: for every city \<open>h\<close> one goods-market-clearing, one
  labor-market-clearing and one resource-constraint expression.
\<close>

theorem build_equations_three_per_city:
  "length (build_equations n) = 3 * n \<and>
   (\<forall>h<n. build_equations n ! (3 * h) = (\<lambda>v. goods_market_clearing v h) \<and>
          build_equations n ! (3 * h + 1) = (\<lambda>v. labor_market_clearing v h) \<and>
          build_equations n ! (3 * h + 2) = (\<lambda>v. resource_constraint v h))"
  using length_build_equations nth_build_equations by blast

theorem build_equations_three_per_city_witness:
  "(1::nat) < 2 \<and> length (build_equations 2) = 6 \<and>
   build_equations 2 ! 3 = (\<lambda>v. goods_market_clearing v 1) \<and>
   build_equations 2 ! 4 = (\<lambda>v. labor_market_clearing v 1) \<and>
   build_equations 2 ! 5 = (\<lambda>v. resource_constraint v 1)"
proof -
  have h: "(1::nat) < 2" by simp
  have len: "length (build_equations 2) = 3 * 2"
    and each: "\<forall>h<2. build_equations 2 ! (3 * h) = (\<lambda>v. goods_market_clearing v h) \<and>
          build_equations 2 ! (3 * h + 1) = (\<lambda>v. labor_market_clearing v h) \<and>
          build_equations 2 ! (3 * h + 2) = (\<lambda>v. resource_constraint v h)"
    using build_equations_three_per_city [of 2] by blast+
  from each h have "build_equations 2 ! (3 * 1) = (\<lambda>v. goods_market_clearing v 1) \<and>
          build_equations 2 ! (3 * 1 + 1) = (\<lambda>v. labor_market_clearing v 1) \<and>
          build_equations 2 ! (3 * 1 + 2) = (\<lambda>v. resource_constraint v 1)"
    by blast
  with len h show ?thesis by simp
qed

subsection \<open>Sub-expressions\<close>

text \<open>
  Claim C5. Labor productivity is \<open>phi\<close> divided by the economic distance, marginal
  cost is the nominal wage divided by labor productivity, and with wage 2 and
  productivity 4 the marginal cost is exactly one half.
\<close>

theorem marginal_costs_wage_over_productivity:
  "(h < num_cities v \<and> j < num_cities v \<and> economic_distance v h j \<noteq> 0 \<longrightarrow>
      labor_productivity v h j = Inr (sym_phi v / economic_distance v h j)) \<and>
   (labor_productivity v h j = Inr a \<and> a \<noteq> 0 \<longrightarrow>
      marginal_costs v h j = Inr (nominal_wage v h / a)) \<and>
   (labor_productivity v h j = Inr 4 \<and> nominal_wage v h = 2 \<longrightarrow>
      marginal_costs v h j = Inr (1 / 2))"
  by (simp add: labor_productivity_def marginal_costs_def economic_distance_at_def
      bind_result_def divide_py_def)

theorem marginal_costs_wage_over_productivity_witness:
  "labor_productivity example_valuation 0 1 = Inr 4 \<and>
   nominal_wage example_valuation 0 = 2 \<and>
   marginal_costs example_valuation 0 1 = Inr (1 / 2)"
  using marginal_costs_wage_over_productivity [of 0 example_valuation 1 4]
  by (simp add: example_valuation_def labor_productivity_def economic_distance_at_def
      bind_result_def divide_py_def)

text \<open>
  Claim C10. For a city with positive elasticity of substitution, positive price level
  and positive nominal GDP, the quantity demanded is defined at every positive price and
  is strictly decreasing in the price.
\<close>

theorem quantity_demand_strictly_decreasing:
  assumes "0 < elasticity_substitution v j" and "0 < price_level v j"
    and "0 < nominal_gdp v j" and "0 < p1" and "p1 < p2"
  shows "\<exists>q1 q2. quantity_demand v p1 j = Inr q1 \<and> quantity_demand v p2 j = Inr q2 \<and> q2 < q1"
proof -
  let ?P = "price_level v j" and ?t = "elasticity_substitution v j"
  let ?g = "nominal_gdp v j / ?P"
  have pos1: "0 < p1 / ?P" and pos2: "0 < p2 / ?P"
    using assms by simp_all
  have lt: "p1 / ?P < p2 / ?P"
    using assms by (simp add: divide_strict_right_mono)
  have g: "0 < ?g" using assms by simp
  have q1: "quantity_demand v p1 j = Inr ((p1 / ?P) powr (- ?t) * ?g)"
    using assms pos1
    by (simp add: quantity_demand_def relative_price_def real_gdp_def bind_result_def
        divide_py_def power_py_def)
  have q2: "quantity_demand v p2 j = Inr ((p2 / ?P) powr (- ?t) * ?g)"
    using assms pos2
    by (simp add: quantity_demand_def relative_price_def real_gdp_def bind_result_def
        divide_py_def power_py_def)
  have "(p2 / ?P) powr (- ?t) < (p1 / ?P) powr (- ?t)"
    using assms(1) pos1 lt by (intro powr_less_mono2_neg) simp_all
  then have "(p2 / ?P) powr (- ?t) * ?g < (p1 / ?P) powr (- ?t) * ?g"
    using g by (rule mult_strict_right_mono)
  with q1 q2 show ?thesis by simp
qed

theorem quantity_demand_strictly_decreasing_witness:
  "0 < elasticity_substitution example_valuation 0 \<and> 0 < price_level example_valuation 0 \<and>
   0 < nominal_gdp example_valuation 0 \<and> (0::real) < 1 \<and> (1::real) < 2 \<and>
   (\<exists>q1 q2. quantity_demand example_valuation 1 0 = Inr q1 \<and>
            quantity_demand example_valuation 2 0 = Inr q2 \<and> q2 < q1)"
  using quantity_demand_strictly_decreasing [of example_valuation 0 1 2]
  by (simp add: example_valuation_def)

subsection \<open>The cache of compiled functions\<close>

text \<open>
  One step of a caller: how it changes the caches and the list of compilations.
\<close>

lemma access_step_system_count:
  "access_step lam a (s, calls) = (r, s', calls') \<Longrightarrow>
     count_list calls' Lambdify_system + (if numeric_system_cache s' = None then 1 else 0)
       \<le> count_list calls Lambdify_system + (if numeric_system_cache s = None then 1 else 0)
          + (if a = Clear_cache then 1 else 0)"
  by (cases a)
    (auto simp: access_step_def numeric_system_def numeric_jacobian_def clear_cache_def Let_def
      split: option.splits)

lemma access_step_jacobian_count:
  "access_step lam a (s, calls) = (r, s', calls') \<Longrightarrow>
     count_list calls' Lambdify_jacobian + (if numeric_jacobian_cache s' = None then 1 else 0)
       \<le> count_list calls Lambdify_jacobian + (if numeric_jacobian_cache s = None then 1 else 0)
          + (if a = Clear_cache then 1 else 0)"
  by (cases a)
    (auto simp: access_step_def numeric_system_def numeric_jacobian_def clear_cache_def Let_def
      split: option.splits)

lemma access_step_system_kept:
  "access_step lam a (s, calls) = (r, s', calls') \<Longrightarrow> a \<noteq> Clear_cache \<Longrightarrow>
     numeric_system_cache s = Some fn \<Longrightarrow>
     numeric_system_cache s' = Some fn \<and> (a = Get_numeric_system \<longrightarrow> r = Some fn)"
  by (cases a)
    (auto simp: access_step_def numeric_system_def numeric_jacobian_def Let_def
      split: option.splits)

lemma access_step_jacobian_kept:
  "access_step lam a (s, calls) = (r, s', calls') \<Longrightarrow> a \<noteq> Clear_cache \<Longrightarrow>
     numeric_jacobian_cache s = Some fn \<Longrightarrow>
     numeric_jacobian_cache s' = Some fn \<and> (a = Get_numeric_jacobian \<longrightarrow> r = Some fn)"
  by (cases a)
    (auto simp: access_step_def numeric_system_def numeric_jacobian_def Let_def
      split: option.splits)

lemma access_step_system_filled:
  "access_step lam Get_numeric_system (s, calls) = (r, s', calls') \<Longrightarrow>
     \<exists>fn. r = Some fn \<and> numeric_system_cache s' = Some fn"
  by (cases "numeric_system_cache s")
    (auto simp: access_step_def numeric_system_def Let_def, metis)

lemma access_step_jacobian_filled:
  "access_step lam Get_numeric_jacobian (s, calls) = (r, s', calls') \<Longrightarrow>
     \<exists>fn. r = Some fn \<and> numeric_jacobian_cache s' = Some fn"
  by (cases "numeric_jacobian_cache s")
    (auto simp: access_step_def numeric_jacobian_def Let_def, metis)

lemma run_accesses_Cons:
  "run_accesses lam (a # as) (s, calls) = (rs, st') \<Longrightarrow>
     \<exists>r s1 calls1 rs1. access_step lam a (s, calls) = (r, s1, calls1) \<and>
        run_accesses lam as (s1, calls1) = (rs1, st') \<and> rs = r # rs1"
  by (auto split: prod.splits)

lemma run_accesses_system_count:
  "run_accesses lam as (s, calls) = (rs, s', calls') \<Longrightarrow>
     count_list calls' Lambdify_system
       \<le> count_list calls Lambdify_system
          + (if numeric_system_cache s = None then 1 else 0) + count_list as Clear_cache"
proof (induction as arbitrary: s calls rs)
  case Nil
  then show ?case by simp
next
  case (Cons a as)
  from run_accesses_Cons [OF Cons.prems] obtain r s1 calls1 rs1
    where step: "access_step lam a (s, calls) = (r, s1, calls1)"
      and rest: "run_accesses lam as (s1, calls1) = (rs1, s', calls')"
    by blast
  from Cons.IH [OF rest] access_step_system_count [OF step] show ?case
    by (simp split: if_splits)
qed

lemma run_accesses_jacobian_count:
  "run_accesses lam as (s, calls) = (rs, s', calls') \<Longrightarrow>
     count_list calls' Lambdify_jacobian
       \<le> count_list calls Lambdify_jacobian
          + (if numeric_jacobian_cache s = None then 1 else 0) + count_list as Clear_cache"
proof (induction as arbitrary: s calls rs)
  case Nil
  then show ?case by simp
next
  case (Cons a as)
  from run_accesses_Cons [OF Cons.prems] obtain r s1 calls1 rs1
    where step: "access_step lam a (s, calls) = (r, s1, calls1)"
      and rest: "run_accesses lam as (s1, calls1) = (rs1, s', calls')"
    by blast
  from Cons.IH [OF rest] access_step_jacobian_count [OF step] show ?case
    by (simp split: if_splits)
qed

text \<open>Once a function is cached, every later read returns it until the cache is cleared.\<close>

lemma run_accesses_system_cached:
  "run_accesses lam as (s, calls) = (rs, st') \<Longrightarrow> Clear_cache \<notin> set as \<Longrightarrow>
     numeric_system_cache s = Some fn \<Longrightarrow>
     \<forall>i<length as. as ! i = Get_numeric_system \<longrightarrow> rs ! i = Some fn"
proof (induction as arbitrary: s calls rs)
  case Nil
  then show ?case by simp
next
  case (Cons a as)
  from run_accesses_Cons [OF Cons.prems(1)] obtain r s1 calls1 rs1
    where step: "access_step lam a (s, calls) = (r, s1, calls1)"
      and rest: "run_accesses lam as (s1, calls1) = (rs1, st')"
      and rs: "rs = r # rs1"
    by blast
  have "a \<noteq> Clear_cache" and noclear: "Clear_cache \<notin> set as"
    using Cons.prems(2) by auto
  then have keep: "numeric_system_cache s1 = Some fn"
    and hd: "a = Get_numeric_system \<longrightarrow> r = Some fn"
    using access_step_system_kept [OF step _ Cons.prems(3)] by simp_all
  have "\<forall>i<length as. as ! i = Get_numeric_system \<longrightarrow> rs1 ! i = Some fn"
    using Cons.IH [OF rest noclear keep] .
  with hd rs show ?case
    by (auto simp: nth_Cons split: nat.splits)
qed

lemma run_accesses_jacobian_cached:
  "run_accesses lam as (s, calls) = (rs, st') \<Longrightarrow> Clear_cache \<notin> set as \<Longrightarrow>
     numeric_jacobian_cache s = Some fn \<Longrightarrow>
     \<forall>i<length as. as ! i = Get_numeric_jacobian \<longrightarrow> rs ! i = Some fn"
proof (induction as arbitrary: s calls rs)
  case Nil
  then show ?case by simp
next
  case (Cons a as)
  from run_accesses_Cons [OF Cons.prems(1)] obtain r s1 calls1 rs1
    where step: "access_step lam a (s, calls) = (r, s1, calls1)"
      and rest: "run_accesses lam as (s1, calls1) = (rs1, st')"
      and rs: "rs = r # rs1"
    by blast
  have "a \<noteq> Clear_cache" and noclear: "Clear_cache \<notin> set as"
    using Cons.prems(2) by auto
  then have keep: "numeric_jacobian_cache s1 = Some fn"
    and hd: "a = Get_numeric_jacobian \<longrightarrow> r = Some fn"
    using access_step_jacobian_kept [OF step _ Cons.prems(3)] by simp_all
  have "\<forall>i<length as. as ! i = Get_numeric_jacobian \<longrightarrow> rs1 ! i = Some fn"
    using Cons.IH [OF rest noclear keep] .
  with hd rs show ?case
    by (auto simp: nth_Cons split: nat.splits)
qed

lemma run_accesses_system_same:
  "run_accesses lam as (s, calls) = (rs, st') \<Longrightarrow> Clear_cache \<notin> set as \<Longrightarrow>
     \<exists>fn. \<forall>i<length as. as ! i = Get_numeric_system \<longrightarrow> rs ! i = Some fn"
proof (induction as arbitrary: s calls rs)
  case Nil
  then show ?case by simp
next
  case (Cons a as)
  from run_accesses_Cons [OF Cons.prems(1)] obtain r s1 calls1 rs1
    where step: "access_step lam a (s, calls) = (r, s1, calls1)"
      and rest: "run_accesses lam as (s1, calls1) = (rs1, st')"
      and rs: "rs = r # rs1"
    by blast
  have noclear: "Clear_cache \<notin> set as" using Cons.prems(2) by simp
  show ?case
  proof (cases "a = Get_numeric_system")
    case True
    then obtain fn where r: "r = Some fn" and cached: "numeric_system_cache s1 = Some fn"
      using access_step_system_filled step by blast
    have "\<forall>i<length as. as ! i = Get_numeric_system \<longrightarrow> rs1 ! i = Some fn"
      using run_accesses_system_cached [OF rest noclear cached] .
    with r rs have "\<forall>i<length (a # as). (a # as) ! i = Get_numeric_system \<longrightarrow> rs ! i = Some fn"
      by (auto simp: nth_Cons split: nat.splits)
    then show ?thesis by blast
  next
    case False
    from Cons.IH [OF rest noclear] obtain fn where
      "\<forall>i<length as. as ! i = Get_numeric_system \<longrightarrow> rs1 ! i = Some fn" by blast
    with False rs have "\<forall>i<length (a # as). (a # as) ! i = Get_numeric_system \<longrightarrow> rs ! i = Some fn"
      by (auto simp: nth_Cons split: nat.splits)
    then show ?thesis by blast
  qed
qed

lemma run_accesses_jacobian_same:
  "run_accesses lam as (s, calls) = (rs, st') \<Longrightarrow> Clear_cache \<notin> set as \<Longrightarrow>
     \<exists>fn. \<forall>i<length as. as ! i = Get_numeric_jacobian \<longrightarrow> rs ! i = Some fn"
proof (induction as arbitrary: s calls rs)
  case Nil
  then show ?case by simp
next
  case (Cons a as)
  from run_accesses_Cons [OF Cons.prems(1)] obtain r s1 calls1 rs1
    where step: "access_step lam a (s, calls) = (r, s1, calls1)"
      and rest: "run_accesses lam as (s1, calls1) = (rs1, st')"
      and rs: "rs = r # rs1"
    by blast
  have noclear: "Clear_cache \<notin> set as" using Cons.prems(2) by simp
  show ?case
  proof (cases "a = Get_numeric_jacobian")
    case True
    then obtain fn where r: "r = Some fn" and cached: "numeric_jacobian_cache s1 = Some fn"
      using access_step_jacobian_filled step by blast
    have "\<forall>i<length as. as ! i = Get_numeric_jacobian \<longrightarrow> rs1 ! i = Some fn"
      using run_accesses_jacobian_cached [OF rest noclear cached] .
    with r rs have "\<forall>i<length (a # as). (a # as) ! i = Get_numeric_jacobian \<longrightarrow> rs ! i = Some fn"
      by (auto simp: nth_Cons split: nat.splits)
    then show ?thesis by blast
  next
    case False
    from Cons.IH [OF rest noclear] obtain fn where
      "\<forall>i<length as. as ! i = Get_numeric_jacobian \<longrightarrow> rs1 ! i = Some fn" by blast
    with False rs have "\<forall>i<length (a # as). (a # as) ! i = Get_numeric_jacobian \<longrightarrow> rs ! i = Some fn"
      by (auto simp: nth_Cons split: nat.splits)
    then show ?thesis by blast
  qed
qed

lemma slice_prefix:
  "0 \<le> k \<Longrightarrow> slice xs None (Some k) = take (nat k) xs"
  by (simp add: slice_def slice_index_def Let_def min_def)

text \<open>
  Claim C7. Reading a compiled function whose cache is empty compiles it once and stores
  it; reading it while it is cached returns the stored object and changes nothing;
  clearing the cache empties both entries. So in every run of reads and clears on a new
  solver each function is compiled at most once more than the cache was cleared, and in a
  run without a clear it is compiled at most once and every read returns the same object.
\<close>

theorem compiled_functions_built_once:
  "(numeric_system_cache s = None \<longrightarrow>
      (\<exists>fn. numeric_system lam (s, calls)
             = (fn, s\<lparr>numeric_system_cache := Some fn\<rparr>, calls @ [Lambdify_system]))) \<and>
   (numeric_system_cache s = Some fn1 \<longrightarrow> numeric_system lam (s, calls) = (fn1, s, calls)) \<and>
   (numeric_jacobian_cache s = None \<longrightarrow>
      (\<exists>fn. numeric_jacobian lam (s, calls)
             = (fn, s\<lparr>numeric_jacobian_cache := Some fn\<rparr>, calls @ [Lambdify_jacobian]))) \<and>
   (numeric_jacobian_cache s = Some fn2 \<longrightarrow> numeric_jacobian lam (s, calls) = (fn2, s, calls)) \<and>
   numeric_system_cache (clear_cache s) = None \<and>
   numeric_jacobian_cache (clear_cache s) = None \<and>
   (run_accesses lam as (Solver m, []) = (rs, s', calls') \<longrightarrow>
      count_list calls' Lambdify_system \<le> 1 + count_list as Clear_cache \<and>
      count_list calls' Lambdify_jacobian \<le> 1 + count_list as Clear_cache \<and>
      (Clear_cache \<notin> set as \<longrightarrow>
         count_list calls' Lambdify_system \<le> 1 \<and>
         count_list calls' Lambdify_jacobian \<le> 1 \<and>
         (\<exists>fn. \<forall>i<length as. as ! i = Get_numeric_system \<longrightarrow> rs ! i = Some fn) \<and>
         (\<exists>fn. \<forall>i<length as. as ! i = Get_numeric_jacobian \<longrightarrow> rs ! i = Some fn)))"
proof -
  have a: "numeric_system_cache s = None \<longrightarrow>
      (\<exists>fn. numeric_system lam (s, calls)
             = (fn, s\<lparr>numeric_system_cache := Some fn\<rparr>, calls @ [Lambdify_system]))"
    by (simp add: numeric_system_def Let_def)
  have b: "numeric_system_cache s = Some fn1 \<longrightarrow> numeric_system lam (s, calls) = (fn1, s, calls)"
    by (simp add: numeric_system_def)
  have c: "numeric_jacobian_cache s = None \<longrightarrow>
      (\<exists>fn. numeric_jacobian lam (s, calls)
             = (fn, s\<lparr>numeric_jacobian_cache := Some fn\<rparr>, calls @ [Lambdify_jacobian]))"
    by (simp add: numeric_jacobian_def Let_def)
  have d: "numeric_jacobian_cache s = Some fn2 \<longrightarrow> numeric_jacobian lam (s, calls) = (fn2, s, calls)"
    by (simp add: numeric_jacobian_def)
  have e: "numeric_system_cache (clear_cache s) = None"
    "numeric_jacobian_cache (clear_cache s) = None"
    by (simp_all add: clear_cache_def)
  have f: "run_accesses lam as (Solver m, []) = (rs, s', calls') \<longrightarrow>
      count_list calls' Lambdify_system \<le> 1 + count_list as Clear_cache \<and>
      count_list calls' Lambdify_jacobian \<le> 1 + count_list as Clear_cache \<and>
      (Clear_cache \<notin> set as \<longrightarrow>
         count_list calls' Lambdify_system \<le> 1 \<and>
         count_list calls' Lambdify_jacobian \<le> 1 \<and>
         (\<exists>fn. \<forall>i<length as. as ! i = Get_numeric_system \<longrightarrow> rs ! i = Some fn) \<and>
         (\<exists>fn. \<forall>i<length as. as ! i = Get_numeric_jacobian \<longrightarrow> rs ! i = Some fn))"
  proof
    assume run: "run_accesses lam as (Solver m, []) = (rs, s', calls')"
    have c1: "count_list calls' Lambdify_system \<le> 1 + count_list as Clear_cache"
      using run_accesses_system_count [OF run] by (simp add: Solver_def)
    have c2: "count_list calls' Lambdify_jacobian \<le> 1 + count_list as Clear_cache"
      using run_accesses_jacobian_count [OF run] by (simp add: Solver_def)
    have c3: "Clear_cache \<notin> set as \<longrightarrow>
         count_list calls' Lambdify_system \<le> 1 \<and>
         count_list calls' Lambdify_jacobian \<le> 1 \<and>
         (\<exists>fn. \<forall>i<length as. as ! i = Get_numeric_system \<longrightarrow> rs ! i = Some fn) \<and>
         (\<exists>fn. \<forall>i<length as. as ! i = Get_numeric_jacobian \<longrightarrow> rs ! i = Some fn)"
    proof
      assume nc: "Clear_cache \<notin> set as"
      then have z: "count_list as Clear_cache = 0" by (simp add: count_list_0_iff)
      show "count_list calls' Lambdify_system \<le> 1 \<and>
         count_list calls' Lambdify_jacobian \<le> 1 \<and>
         (\<exists>fn. \<forall>i<length as. as ! i = Get_numeric_system \<longrightarrow> rs ! i = Some fn) \<and>
         (\<exists>fn. \<forall>i<length as. as ! i = Get_numeric_jacobian \<longrightarrow> rs ! i = Some fn)"
        using c1 c2 z run_accesses_system_same [OF run nc] run_accesses_jacobian_same [OF run nc]
        by simp
    qed
    from c1 c2 c3 show "count_list calls' Lambdify_system \<le> 1 + count_list as Clear_cache \<and>
      count_list calls' Lambdify_jacobian \<le> 1 + count_list as Clear_cache \<and>
      (Clear_cache \<notin> set as \<longrightarrow>
         count_list calls' Lambdify_system \<le> 1 \<and>
         count_list calls' Lambdify_jacobian \<le> 1 \<and>
         (\<exists>fn. \<forall>i<length as. as ! i = Get_numeric_system \<longrightarrow> rs ! i = Some fn) \<and>
         (\<exists>fn. \<forall>i<length as. as ! i = Get_numeric_jacobian \<longrightarrow> rs ! i = Some fn))"
      by blast
  qed
  from a b c d e f show ?thesis by blast
qed

theorem compiled_functions_built_once_witness:
  "numeric_system_cache (Solver example_model) = None \<and>
   numeric_jacobian_cache (Solver example_model) = None \<and>
   numeric_system_cache example_cached_solver = Some example_system_fn \<and>
   numeric_jacobian_cache example_cached_solver = Some example_jacobian_fn \<and>
   Clear_cache \<notin> set example_accesses \<and>
   run_accesses example_lambdify example_accesses (Solver example_model, []) =
     ([Some example_system_fn, Some example_jacobian_fn, Some example_system_fn],
      example_cached_solver, [Lambdify_system, Lambdify_jacobian]) \<and>
   count_list [Lambdify_system, Lambdify_jacobian] Lambdify_system \<le> 1 \<and>
   count_list [Lambdify_system, Lambdify_jacobian] Lambdify_jacobian \<le> 1 \<and>
   numeric_system example_lambdify (example_cached_solver, [Lambdify_system, Lambdify_jacobian])
     = (example_system_fn, example_cached_solver, [Lambdify_system, Lambdify_jacobian]) \<and>
   numeric_jacobian example_lambdify (example_cached_solver, [Lambdify_system, Lambdify_jacobian])
     = (example_jacobian_fn, example_cached_solver, [Lambdify_system, Lambdify_jacobian]) \<and>
   (\<exists>fn. numeric_system example_lambdify (Solver example_model, [])
          = (fn, (Solver example_model)\<lparr>numeric_system_cache := Some fn\<rparr>, [Lambdify_system])) \<and>
   (\<exists>fn. numeric_jacobian example_lambdify (Solver example_model, [])
          = (fn, (Solver example_model)\<lparr>numeric_jacobian_cache := Some fn\<rparr>, [Lambdify_jacobian]))"
proof -
  have none: "numeric_system_cache (Solver example_model) = None"
    "numeric_jacobian_cache (Solver example_model) = None"
    by (simp_all add: Solver_def)
  have some: "numeric_system_cache example_cached_solver = Some example_system_fn"
    "numeric_jacobian_cache example_cached_solver = Some example_jacobian_fn"
    by (simp_all add: example_cached_solver_def)
  have nc: "Clear_cache \<notin> set example_accesses"
    by (simp add: example_accesses_def)
  have run: "run_accesses example_lambdify example_accesses (Solver example_model, []) =
     ([Some example_system_fn, Some example_jacobian_fn, Some example_system_fn],
      example_cached_solver, [Lambdify_system, Lambdify_jacobian])"
    by (simp add: example_accesses_def access_step_def numeric_system_def numeric_jacobian_def
        Solver_def Let_def example_system_fn_def example_jacobian_fn_def example_model_def
        example_cached_solver_def)
  note fresh = compiled_functions_built_once
    [of "Solver example_model" example_lambdify "[]" example_system_fn example_jacobian_fn
        example_accesses example_model
        "[Some example_system_fn, Some example_jacobian_fn, Some example_system_fn]"
        example_cached_solver "[Lambdify_system, Lambdify_jacobian]"]
  note cached = compiled_functions_built_once
    [of example_cached_solver example_lambdify "[Lambdify_system, Lambdify_jacobian]"
        example_system_fn example_jacobian_fn
        example_accesses example_model
        "[Some example_system_fn, Some example_jacobian_fn, Some example_system_fn]"
        example_cached_solver "[Lambdify_system, Lambdify_jacobian]"]
  from fresh none run nc have
    "count_list [Lambdify_system, Lambdify_jacobian] Lambdify_system \<le> 1"
    "count_list [Lambdify_system, Lambdify_jacobian] Lambdify_jacobian \<le> 1"
    "\<exists>fn. numeric_system example_lambdify (Solver example_model, [])
          = (fn, (Solver example_model)\<lparr>numeric_system_cache := Some fn\<rparr>, [Lambdify_system])"
    "\<exists>fn. numeric_jacobian example_lambdify (Solver example_model, [])
          = (fn, (Solver example_model)\<lparr>numeric_jacobian_cache := Some fn\<rparr>, [Lambdify_jacobian])"
    by simp_all
  moreover from cached some have
    "numeric_system example_lambdify (example_cached_solver, [Lambdify_system, Lambdify_jacobian])
     = (example_system_fn, example_cached_solver, [Lambdify_system, Lambdify_jacobian])"
    "numeric_jacobian example_lambdify (example_cached_solver, [Lambdify_system, Lambdify_jacobian])
     = (example_jacobian_fn, example_cached_solver, [Lambdify_system, Lambdify_jacobian])"
    by blast+
  ultimately show ?thesis using none some nc run by blast
qed

subsection \<open>The numeraire\<close>

text \<open>
  Claim C3. In the residual and the Jacobian function of the solver and of
  \<open>sandbox.py\<close> the compiled function is called with a price vector whose first entry
  is 1, followed by the leading slice of the unknown vector, which for a city count
  \<open>n \<ge> 1\<close> holds its first \<open>n - 1\<close> entries.
\<close>

theorem numeraire_first_price:
  "(\<exists>fn st'. numeric_system lam st = (fn, st') \<and>
      system lam st X =
        (bind_result
           (call fn \<lparr>arg_P = 1 # slice X None (Some (model_N (solver_model (fst st)) - 1)),
                     arg_Y = slice X (Some (model_N (solver_model (fst st)) - 1))
                               (Some (2 * model_N (solver_model (fst st)) - 1)),
                     arg_W = slice X (Some (2 * model_N (solver_model (fst st)) - 1))
                               (Some (3 * model_N (solver_model (fst st)) - 1)),
                     arg_M = slice X (Some (3 * model_N (solver_model (fst st)) - 1)) None,
                     arg_population = model_population (solver_model (fst st)),
                     arg_params = model_params (solver_model (fst st))\<rparr>)
           (\<lambda>residual. Inr (concat residual)), st')) \<and>
   (\<exists>fn st'. numeric_jacobian lam st = (fn, st') \<and>
      jacobian lam st X =
        (call fn \<lparr>arg_P = 1 # slice X None (Some (model_N (solver_model (fst st)) - 1)),
                  arg_Y = slice X (Some (model_N (solver_model (fst st)) - 1))
                            (Some (2 * model_N (solver_model (fst st)) - 1)),
                  arg_W = slice X (Some (2 * model_N (solver_model (fst st)) - 1))
                            (Some (3 * model_N (solver_model (fst st)) - 1)),
                  arg_M = slice X (Some (3 * model_N (solver_model (fst st)) - 1)) None,
                  arg_population = model_population (solver_model (fst st)),
                  arg_params = model_params (solver_model (fst st))\<rparr>, st')) \<and>
   equilibrium_system compiled n X f beta phi tau theta =
     bind_result
       (compiled (1 # slice X None (Some (n - 1))) (slice X (Some (n - 1)) (Some (2 * n - 1)))
          (slice X (Some (2 * n - 1)) (Some (3 * n - 1))) (slice X (Some (3 * n - 1)) None)
          f beta phi tau theta)
       (\<lambda>residual. Inr (concat residual)) \<and>
   equilibrium_jacobian compiled n X f beta phi tau theta =
     compiled (1 # slice X None (Some (n - 1))) (slice X (Some (n - 1)) (Some (2 * n - 1)))
       (slice X (Some (2 * n - 1)) (Some (3 * n - 1))) (slice X (Some (3 * n - 1)) None)
       f beta phi tau theta \<and>
   (1 \<le> n \<longrightarrow> slice X None (Some (n - 1)) = take (nat (n - 1)) X) \<and>
   (1 \<le> n \<and> n - 1 \<le> int (length X) \<longrightarrow> int (length (slice X None (Some (n - 1)))) = n - 1)"
proof -
  have s: "\<exists>fn st'. numeric_system lam st = (fn, st') \<and>
      system lam st X =
        (bind_result
           (call fn \<lparr>arg_P = 1 # slice X None (Some (model_N (solver_model (fst st)) - 1)),
                     arg_Y = slice X (Some (model_N (solver_model (fst st)) - 1))
                               (Some (2 * model_N (solver_model (fst st)) - 1)),
                     arg_W = slice X (Some (2 * model_N (solver_model (fst st)) - 1))
                               (Some (3 * model_N (solver_model (fst st)) - 1)),
                     arg_M = slice X (Some (3 * model_N (solver_model (fst st)) - 1)) None,
                     arg_population = model_population (solver_model (fst st)),
                     arg_params = model_params (solver_model (fst st))\<rparr>)
           (\<lambda>residual. Inr (concat residual)), st')"
    by (cases "numeric_system lam st") (simp add: system_def Let_def np_ones_def)
  have j: "\<exists>fn st'. numeric_jacobian lam st = (fn, st') \<and>
      jacobian lam st X =
        (call fn \<lparr>arg_P = 1 # slice X None (Some (model_N (solver_model (fst st)) - 1)),
                  arg_Y = slice X (Some (model_N (solver_model (fst st)) - 1))
                            (Some (2 * model_N (solver_model (fst st)) - 1)),
                  arg_W = slice X (Some (2 * model_N (solver_model (fst st)) - 1))
                            (Some (3 * model_N (solver_model (fst st)) - 1)),
                  arg_M = slice X (Some (3 * model_N (solver_model (fst st)) - 1)) None,
                  arg_population = model_population (solver_model (fst st)),
                  arg_params = model_params (solver_model (fst st))\<rparr>, st')"
    by (cases "numeric_jacobian lam st") (simp add: jacobian_def Let_def np_ones_def)
  have e: "equilibrium_system compiled n X f beta phi tau theta =
     bind_result
       (compiled (1 # slice X None (Some (n - 1))) (slice X (Some (n - 1)) (Some (2 * n - 1)))
          (slice X (Some (2 * n - 1)) (Some (3 * n - 1))) (slice X (Some (3 * n - 1)) None)
          f beta phi tau theta)
       (\<lambda>residual. Inr (concat residual))"
    by (simp add: equilibrium_system_def Let_def np_ones_def)
  have ej: "equilibrium_jacobian compiled n X f beta phi tau theta =
     compiled (1 # slice X None (Some (n - 1))) (slice X (Some (n - 1)) (Some (2 * n - 1)))
       (slice X (Some (2 * n - 1)) (Some (3 * n - 1))) (slice X (Some (3 * n - 1)) None)
       f beta phi tau theta"
    by (simp add: equilibrium_jacobian_def Let_def np_ones_def)
  have t: "1 \<le> n \<longrightarrow> slice X None (Some (n - 1)) = take (nat (n - 1)) X"
    by (simp add: slice_prefix)
  have l: "1 \<le> n \<and> n - 1 \<le> int (length X) \<longrightarrow> int (length (slice X None (Some (n - 1)))) = n - 1"
    by (auto simp: slice_prefix)
  from s j e ej t l show ?thesis by blast
qed

theorem numeraire_first_price_witness:
  "(1::int) \<le> 2 \<and> (2::int) - 1 \<le> int (length example_X) \<and>
   slice example_X None (Some (2 - 1)) = take (nat (2 - 1)) example_X \<and>
   int (length (slice example_X None (Some (2 - 1)))) = 2 - 1 \<and>
   fst (system example_lambdify (Solver example_model, []) example_X) = Inr [1, 7]"
proof -
  have "fst (system example_lambdify (Solver example_model, []) example_X) = Inr [1, 7]"
    by (simp add: system_def numeric_system_def Solver_def example_model_def Let_def
        example_lambdify_def bind_result_def np_ones_def example_X_def slice_def slice_index_def)
  then show ?thesis
    using numeraire_first_price [where lam = example_lambdify
        and st = "(Solver example_model, [])" and X = example_X and n = 2]
    by (simp add: example_X_def)
qed

subsection \<open>The initial guess\<close>

text \<open>
  The loop of \<open>guess\<close> fills the positions \<open>k, k + 1, \<dots>\<close> of the three arrays.
\<close>

lemma fold_guess_step:
  "k + length xs \<le> length Y0 \<Longrightarrow> k + length xs \<le> length W0 \<Longrightarrow> k + length xs \<le> length M0 \<Longrightarrow>
   fold_result (guess_step c) (enumerate k xs) (Y0, W0, M0) =
     Inr (take k Y0 @ map (\<lambda>p. compute_nominal_gdp c [1] [p] (city_params c)) xs
            @ drop (k + length xs) Y0,
          take k W0 @ map (\<lambda>p. compute_nominal_wage c [1] [p] (city_params c)) xs
            @ drop (k + length xs) W0,
          take k M0 @ map (\<lambda>p. compute_number_firms c [1] [p] (city_params c)) xs
            @ drop (k + length xs) M0)"
proof (induction xs arbitrary: k Y0 W0 M0)
  case Nil
  then show ?case by simp
next
  case (Cons x xs)
  let ?y = "compute_nominal_gdp c [1] [x] (city_params c)"
  let ?w = "compute_nominal_wage c [1] [x] (city_params c)"
  let ?m = "compute_number_firms c [1] [x] (city_params c)"
  have k: "k < length Y0" "k < length W0" "k < length M0"
    using Cons.prems by simp_all
  have step: "guess_step c (k, x) (Y0, W0, M0) = Inr (Y0[k := ?y], W0[k := ?w], M0[k := ?m])"
    using k by (simp add: guess_step_def setitem_def bind_result_def np_ones_def)
  have rest: "fold_result (guess_step c) (enumerate (Suc k) xs) (Y0[k := ?y], W0[k := ?w], M0[k := ?m]) =
     Inr (take (Suc k) (Y0[k := ?y]) @ map (\<lambda>p. compute_nominal_gdp c [1] [p] (city_params c)) xs
            @ drop (Suc k + length xs) (Y0[k := ?y]),
          take (Suc k) (W0[k := ?w]) @ map (\<lambda>p. compute_nominal_wage c [1] [p] (city_params c)) xs
            @ drop (Suc k + length xs) (W0[k := ?w]),
          take (Suc k) (M0[k := ?m]) @ map (\<lambda>p. compute_number_firms c [1] [p] (city_params c)) xs
            @ drop (Suc k + length xs) (M0[k := ?m]))"
    using Cons.prems by (intro Cons.IH) simp_all
  have upd: "\<And>(A::real list) a. k < length A \<Longrightarrow> take (Suc k) (A[k := a]) = take k A @ [a]"
    by (simp add: take_Suc_conv_app_nth)
  show ?case
    using k by (simp add: step rest bind_result_def upd)
qed

lemma guess_value:
  assumes n: "1 \<le> model_N (guess_model g)" and c: "city mk g = (c, g')"
  shows "guess mk junk g =
     Inr (replicate (nat (model_N (guess_model g) - 1)) 1
          @ (map (\<lambda>p. compute_nominal_gdp c [1] [p] (city_params c))
               (take (nat (model_N (guess_model g))) (city_population c))
             @ map (junk 0) [length (city_population c)..<nat (model_N (guess_model g))])
          @ (map (\<lambda>p. compute_nominal_wage c [1] [p] (city_params c))
               (take (nat (model_N (guess_model g))) (city_population c))
             @ map (junk 1) [length (city_population c)..<nat (model_N (guess_model g))])
          @ (map (\<lambda>p. compute_number_firms c [1] [p] (city_params c))
               (take (nat (model_N (guess_model g))) (city_population c))
             @ map (junk 2) [length (city_population c)..<nat (model_N (guess_model g))]),
          g')"
proof -
  let ?n = "model_N (guess_model g)"
  let ?xs = "take (nat ?n) (city_population c)"
  have sl: "slice (city_population c) None (Some ?n) = ?xs"
    using n by (simp add: slice_prefix)
  have dr: "drop (length ?xs) (map (junk i) [0..<nat ?n])
      = map (junk i) [length (city_population c)..<nat ?n]" for i
    by (cases "nat ?n \<le> length (city_population c)") (simp_all add: min_def drop_map)
  have fold: "fold_result (guess_step c) (enumerate 0 ?xs)
       (map (junk 0) [0..<nat ?n], map (junk 1) [0..<nat ?n], map (junk 2) [0..<nat ?n]) =
     Inr (map (\<lambda>p. compute_nominal_gdp c [1] [p] (city_params c)) ?xs
            @ map (junk 0) [length (city_population c)..<nat ?n],
          map (\<lambda>p. compute_nominal_wage c [1] [p] (city_params c)) ?xs
            @ map (junk 1) [length (city_population c)..<nat ?n],
          map (\<lambda>p. compute_number_firms c [1] [p] (city_params c)) ?xs
            @ map (junk 2) [length (city_population c)..<nat ?n])"
  proof -
    have "fold_result (guess_step c) (enumerate 0 ?xs)
       (map (junk 0) [0..<nat ?n], map (junk 1) [0..<nat ?n], map (junk 2) [0..<nat ?n]) =
     Inr (take 0 (map (junk 0) [0..<nat ?n])
            @ map (\<lambda>p. compute_nominal_gdp c [1] [p] (city_params c)) ?xs
            @ drop (0 + length ?xs) (map (junk 0) [0..<nat ?n]),
          take 0 (map (junk 1) [0..<nat ?n])
            @ map (\<lambda>p. compute_nominal_wage c [1] [p] (city_params c)) ?xs
            @ drop (0 + length ?xs) (map (junk 1) [0..<nat ?n]),
          take 0 (map (junk 2) [0..<nat ?n])
            @ map (\<lambda>p. compute_number_firms c [1] [p] (city_params c)) ?xs
            @ drop (0 + length ?xs) (map (junk 2) [0..<nat ?n]))"
      by (rule fold_guess_step) simp_all
    then show ?thesis
      by (simp only: take_0 append_Nil add_0 dr)
  qed
  have "guess mk junk g =
     bind_result
       (fold_result (guess_step c) (enumerate 0 ?xs)
          (map (junk 0) [0..<nat ?n], map (junk 1) [0..<nat ?n], map (junk 2) [0..<nat ?n]))
       (\<lambda>r. case r of (Y1, W1, M1) \<Rightarrow> Inr (replicate (nat (?n - 1)) 1 @ Y1 @ W1 @ M1, g'))"
    using n by (simp add: guess_def Let_def np_repeat_def np_empty_def bind_result_def c sl)
  then show ?thesis
    unfolding fold by (simp add: bind_result_def)
qed

lemma guess_negative:
  "model_N (guess_model g) < 1 \<Longrightarrow> guess mk junk g = Inl ValueError"
  by (simp add: guess_def Let_def np_repeat_def bind_result_def)

lemma slice_suffix:
  "0 \<le> k \<Longrightarrow> slice xs (Some k) None = drop (nat k) xs"
  by (simp add: slice_def slice_index_def Let_def min_def)

lemma slice_middle:
  "0 \<le> a \<Longrightarrow> a \<le> b \<Longrightarrow> slice xs (Some a) (Some b) = take (nat b - nat a) (drop (nat a) xs)"
  by (auto simp: slice_def slice_index_def Let_def min_def)

lemma take_drop_chain:
  "a \<le> b \<Longrightarrow> take a xs @ take (b - a) (drop a xs) = take b xs"
  by (metis add_diff_cancel_left' le_Suc_ex take_add)

lemma blocks_concat:
  assumes "1 \<le> n"
  shows "slice X None (Some (n - 1)) @ slice X (Some (n - 1)) (Some (2 * n - 1))
         @ slice X (Some (2 * n - 1)) (Some (3 * n - 1)) @ slice X (Some (3 * n - 1)) None = X"
proof -
  let ?a = "nat (n - 1)" and ?b = "nat (2 * n - 1)" and ?c = "nat (3 * n - 1)"
  have ab: "?a \<le> ?b" and bc: "?b \<le> ?c" using assms by simp_all
  have "slice X None (Some (n - 1)) @ slice X (Some (n - 1)) (Some (2 * n - 1))
         @ slice X (Some (2 * n - 1)) (Some (3 * n - 1)) @ slice X (Some (3 * n - 1)) None
      = (take ?a X @ take (?b - ?a) (drop ?a X)) @ take (?c - ?b) (drop ?b X) @ drop ?c X"
    using assms by (simp add: slice_prefix slice_suffix slice_middle)
  also have "\<dots> = (take ?b X @ take (?c - ?b) (drop ?b X)) @ drop ?c X"
    by (simp add: take_drop_chain [OF ab])
  also have "\<dots> = take ?c X @ drop ?c X"
    by (simp only: take_drop_chain [OF bc])
  finally show ?thesis by simp
qed

lemma blocks_lengths:
  assumes "1 \<le> n" and "int (length X) = 4 * n - 1"
  shows "int (length (slice X None (Some (n - 1)))) = n - 1"
    and "int (length (slice X (Some (n - 1)) (Some (2 * n - 1)))) = n"
    and "int (length (slice X (Some (2 * n - 1)) (Some (3 * n - 1)))) = n"
    and "int (length (slice X (Some (3 * n - 1)) None)) = n"
  using assms by (auto simp: slice_prefix slice_suffix slice_middle)

lemma guess_length:
  assumes "1 \<le> model_N (guess_model g)"
  shows "\<exists>x g'. guess mk junk g = Inr (x, g') \<and> int (length x) = 4 * model_N (guess_model g) - 1"
proof -
  obtain c g' where c: "city mk g = (c, g')" by (cases "city mk g")
  show ?thesis
    using assms by (auto simp: guess_value [OF assms c] min_def)
qed

text \<open>
  Claim C1, as amended. For a city count \<open>N \<ge> 1\<close> the initial guess is produced and has
  length \<open>4 * N - 1\<close>; the four slices that \<open>system\<close> and \<open>jacobian\<close> take of an
  unknown vector, put together again in order, give the vector back; and for a vector of
  length \<open>4 * N - 1\<close> the slices have lengths \<open>N - 1\<close>, \<open>N\<close>, \<open>N\<close> and \<open>N\<close>.
\<close>

theorem unknown_vector_layout:
  assumes "1 \<le> model_N (guess_model g)"
  shows "(\<exists>x g'. guess mk junk g = Inr (x, g') \<and>
            int (length x) = 4 * model_N (guess_model g) - 1) \<and>
         slice X None (Some (model_N (guess_model g) - 1))
           @ slice X (Some (model_N (guess_model g) - 1)) (Some (2 * model_N (guess_model g) - 1))
           @ slice X (Some (2 * model_N (guess_model g) - 1)) (Some (3 * model_N (guess_model g) - 1))
           @ slice X (Some (3 * model_N (guess_model g) - 1)) None = X \<and>
         (int (length X) = 4 * model_N (guess_model g) - 1 \<longrightarrow>
            int (length (slice X None (Some (model_N (guess_model g) - 1))))
              = model_N (guess_model g) - 1 \<and>
            int (length (slice X (Some (model_N (guess_model g) - 1))
                           (Some (2 * model_N (guess_model g) - 1))))
              = model_N (guess_model g) \<and>
            int (length (slice X (Some (2 * model_N (guess_model g) - 1))
                           (Some (3 * model_N (guess_model g) - 1))))
              = model_N (guess_model g) \<and>
            int (length (slice X (Some (3 * model_N (guess_model g) - 1)) None))
              = model_N (guess_model g))"
  using guess_length [OF assms] blocks_concat [OF assms] blocks_lengths [OF assms]
  by blast

lemma example_guess:
  "guess example_city example_junk (IslandsGuess example_model) =
     Inr ([1, 6, 10, 1, 1, 3, 5],
          \<lparr>guess_model = example_model,
           city_cache = Some (example_city example_params [[0, 1], [1, 0]] [3, 5])\<rparr>)"
proof -
  have c: "city example_city (IslandsGuess example_model) =
      (example_city example_params [[0, 1], [1, 0]] [3, 5],
       \<lparr>guess_model = example_model,
        city_cache = Some (example_city example_params [[0, 1], [1, 0]] [3, 5])\<rparr>)"
    by (simp add: city_def IslandsGuess_def example_model_def Let_def)
  have n: "1 \<le> model_N (guess_model (IslandsGuess example_model))"
    by (simp add: IslandsGuess_def example_model_def)
  show ?thesis
    unfolding guess_value [OF n c]
    by (simp add: IslandsGuess_def example_model_def example_city_def example_params_def
        numeral_2_eq_2)
qed

text \<open>
  Claim C1 as stated fails: for two cities the guess has seven entries, not
  \<open>4 * 2 - 3 = 5\<close>.
\<close>

theorem guess_length_counterexample:
  "guess example_city example_junk (IslandsGuess example_model) =
     Inr ([1, 6, 10, 1, 1, 3, 5],
          \<lparr>guess_model = example_model,
           city_cache = Some (example_city example_params [[0, 1], [1, 0]] [3, 5])\<rparr>) \<and>
   model_N example_model = 2 \<and>
   int (length [1, 6, 10, 1, 1, 3, 5 :: real]) \<noteq> 4 * model_N example_model - 3"
  using example_guess by (simp add: example_model_def)

theorem unknown_vector_layout_witness:
  "1 \<le> model_N (guess_model (IslandsGuess example_model)) \<and>
   int (length example_X) = 4 * model_N (guess_model (IslandsGuess example_model)) - 1 \<and>
   (\<exists>x g'. guess example_city example_junk (IslandsGuess example_model) = Inr (x, g') \<and>
      int (length x) = 7) \<and>
   slice example_X None (Some 1) @ slice example_X (Some 1) (Some 3)
     @ slice example_X (Some 3) (Some 5) @ slice example_X (Some 5) None = example_X \<and>
   int (length (slice example_X None (Some 1))) = 1 \<and>
   int (length (slice example_X (Some 1) (Some 3))) = 2 \<and>
   int (length (slice example_X (Some 3) (Some 5))) = 2 \<and>
   int (length (slice example_X (Some 5) None)) = 2"
proof -
  have n: "1 \<le> model_N (guess_model (IslandsGuess example_model))"
    and n2: "model_N (guess_model (IslandsGuess example_model)) = 2"
    by (simp_all add: IslandsGuess_def example_model_def)
  have l: "int (length example_X) = 4 * model_N (guess_model (IslandsGuess example_model)) - 1"
    by (simp add: n2 example_X_def)
  from unknown_vector_layout [OF n, of example_city example_junk example_X] l n
  show ?thesis by (simp add: n2)
qed

text \<open>
  Claim C6. For a model of \<open>N \<ge> 1\<close> cities whose single-city model holds a
  population for each of them, the guess is the block of \<open>N - 1\<close> ones followed by the
  nominal-GDP, nominal-wage and firm-count blocks in this order, and the entries of city
  \<open>h\<close> are the single-city functions applied to the price 1, the population of city
  \<open>h\<close> alone and the parameters.
\<close>

theorem islands_guess_closed_form:
  assumes n: "1 \<le> model_N (guess_model g)" and c: "city mk g = (c, g')"
    and pop: "nat (model_N (guess_model g)) \<le> length (city_population c)"
  shows "\<exists>x. guess mk junk g = Inr (x, g') \<and>
     x = replicate (nat (model_N (guess_model g) - 1)) 1
         @ map (\<lambda>p. compute_nominal_gdp c (np_ones 1) [p] (city_params c))
             (take (nat (model_N (guess_model g))) (city_population c))
         @ map (\<lambda>p. compute_nominal_wage c (np_ones 1) [p] (city_params c))
             (take (nat (model_N (guess_model g))) (city_population c))
         @ map (\<lambda>p. compute_number_firms c (np_ones 1) [p] (city_params c))
             (take (nat (model_N (guess_model g))) (city_population c)) \<and>
     (\<forall>h<nat (model_N (guess_model g)).
        x ! (nat (model_N (guess_model g) - 1) + h)
          = compute_nominal_gdp c (np_ones 1) [city_population c ! h] (city_params c) \<and>
        x ! (nat (model_N (guess_model g) - 1) + nat (model_N (guess_model g)) + h)
          = compute_nominal_wage c (np_ones 1) [city_population c ! h] (city_params c) \<and>
        x ! (nat (model_N (guess_model g) - 1) + 2 * nat (model_N (guess_model g)) + h)
          = compute_number_firms c (np_ones 1) [city_population c ! h] (city_params c))"
proof -
  let ?n = "nat (model_N (guess_model g))"
  let ?xs = "take ?n (city_population c)"
  let ?P = "replicate (nat (model_N (guess_model g) - 1)) (1::real)"
  let ?Y = "map (\<lambda>p. compute_nominal_gdp c (np_ones 1) [p] (city_params c)) ?xs"
  let ?W = "map (\<lambda>p. compute_nominal_wage c (np_ones 1) [p] (city_params c)) ?xs"
  let ?M = "map (\<lambda>p. compute_number_firms c (np_ones 1) [p] (city_params c)) ?xs"
  have len: "length ?xs = ?n" using pop by simp
  have empty: "[length (city_population c)..<?n] = []" using pop by simp
  have val: "guess mk junk g = Inr (?P @ ?Y @ ?W @ ?M, g')"
    unfolding guess_value [OF n c] empty by (simp add: np_ones_def)
  have entries: "(?P @ ?Y @ ?W @ ?M) ! (length ?P + h) = ?Y ! h \<and>
      (?P @ ?Y @ ?W @ ?M) ! (length ?P + ?n + h) = ?W ! h \<and>
      (?P @ ?Y @ ?W @ ?M) ! (length ?P + 2 * ?n + h) = ?M ! h" if "h < ?n" for h
  proof -
    have 1: "(?P @ ?Y @ ?W @ ?M) ! (length ?P + h) = ?Y ! h"
      using that len by (simp add: nth_append del: length_replicate)
    have "(?P @ ?Y @ ?W @ ?M) ! (length ?P + (length ?Y + h)) = (?W @ ?M) ! h"
      by (simp only: nth_append_length_plus)
    then have 2: "(?P @ ?Y @ ?W @ ?M) ! (length ?P + ?n + h) = ?W ! h"
      using that len by (simp add: nth_append add.assoc)
    have "(?P @ ?Y @ ?W @ ?M) ! (length ?P + (length ?Y + (length ?W + h))) = ?M ! h"
      by (simp only: nth_append_length_plus)
    then have 3: "(?P @ ?Y @ ?W @ ?M) ! (length ?P + 2 * ?n + h) = ?M ! h"
      using len by (simp add: add.assoc mult_2)
    from 1 2 3 show ?thesis by blast
  qed
  have "\<forall>h<?n.
        (?P @ ?Y @ ?W @ ?M) ! (nat (model_N (guess_model g) - 1) + h)
          = compute_nominal_gdp c (np_ones 1) [city_population c ! h] (city_params c) \<and>
        (?P @ ?Y @ ?W @ ?M) ! (nat (model_N (guess_model g) - 1) + ?n + h)
          = compute_nominal_wage c (np_ones 1) [city_population c ! h] (city_params c) \<and>
        (?P @ ?Y @ ?W @ ?M) ! (nat (model_N (guess_model g) - 1) + 2 * ?n + h)
          = compute_number_firms c (np_ones 1) [city_population c ! h] (city_params c)"
  proof (intro allI impI)
    fix h assume h: "h < ?n"
    from entries [OF h] h len show
      "(?P @ ?Y @ ?W @ ?M) ! (nat (model_N (guess_model g) - 1) + h)
          = compute_nominal_gdp c (np_ones 1) [city_population c ! h] (city_params c) \<and>
        (?P @ ?Y @ ?W @ ?M) ! (nat (model_N (guess_model g) - 1) + ?n + h)
          = compute_nominal_wage c (np_ones 1) [city_population c ! h] (city_params c) \<and>
        (?P @ ?Y @ ?W @ ?M) ! (nat (model_N (guess_model g) - 1) + 2 * ?n + h)
          = compute_number_firms c (np_ones 1) [city_population c ! h] (city_params c)"
      by simp
  qed
  with val show ?thesis by blast
qed

lemma example_city_of_guess:
  "city example_city (IslandsGuess example_model) =
      (example_city example_params [[0, 1], [1, 0]] [3, 5],
       \<lparr>guess_model = example_model,
        city_cache = Some (example_city example_params [[0, 1], [1, 0]] [3, 5])\<rparr>)"
  by (simp add: city_def IslandsGuess_def example_model_def Let_def)

theorem islands_guess_closed_form_witness:
  "1 \<le> model_N (guess_model (IslandsGuess example_model)) \<and>
   nat (model_N (guess_model (IslandsGuess example_model)))
     \<le> length (city_population (example_city example_params [[0, 1], [1, 0]] [3, 5])) \<and>
   (1::nat) < nat (model_N (guess_model (IslandsGuess example_model))) \<and>
   guess example_city example_junk (IslandsGuess example_model) =
     Inr ([1, 6, 10, 1, 1, 3, 5],
          \<lparr>guess_model = example_model,
           city_cache = Some (example_city example_params [[0, 1], [1, 0]] [3, 5])\<rparr>) \<and>
   [1, 6, 10, 1, 1, 3, 5 :: real] ! (1 + 1) = 2 * 5"
proof -
  have n: "1 \<le> model_N (guess_model (IslandsGuess example_model))"
    and n2: "model_N (guess_model (IslandsGuess example_model)) = 2"
    by (simp_all add: IslandsGuess_def example_model_def)
  have p: "nat (model_N (guess_model (IslandsGuess example_model)))
     \<le> length (city_population (example_city example_params [[0, 1], [1, 0]] [3, 5]))"
    by (simp add: n2 example_city_def)
  have h: "(1::nat) < nat (model_N (guess_model (IslandsGuess example_model)))"
    by (simp add: n2)
  from islands_guess_closed_form [OF n example_city_of_guess p, of example_junk]
  have "guess example_city example_junk (IslandsGuess example_model) =
     Inr ([1, 6, 10, 1, 1, 3, 5],
          \<lparr>guess_model = example_model,
           city_cache = Some (example_city example_params [[0, 1], [1, 0]] [3, 5])\<rparr>)"
    by (simp add: n2 example_city_def example_params_def np_ones_def numeral_2_eq_2)
  with n p h show ?thesis by simp
qed

subsection \<open>An elasticity of substitution equal to one\<close>



subsection \<open>The distance matrices\<close>

text \<open>
  A property that every round of a loop over positions keeps holds when the loop ends.
\<close>

lemma fold_result_enumerate_invariant:
  assumes "fold_result g (enumerate k xs) s = Inr s'"
    and "I k s"
    and "\<And>j s t. k \<le> j \<Longrightarrow> j < k + length xs \<Longrightarrow> I j s \<Longrightarrow>
           g (j, xs ! (j - k)) s = Inr t \<Longrightarrow> I (Suc j) t"
  shows "I (k + length xs) s'"
  using assms
proof (induction xs arbitrary: k s)
  case Nil
  then show ?case by simp
next
  case (Cons x xs)
  from Cons.prems(1) obtain t where t: "g (k, x) s = Inr t"
    and rest: "fold_result g (enumerate (Suc k) xs) t = Inr s'"
    by (auto simp: bind_result_def split: sum.splits)
  have "I (Suc k) t"
    using Cons.prems(3) [of k s t] Cons.prems(2) t by simp
  moreover have "I (Suc j) t'"
    if "Suc k \<le> j" "j < Suc k + length xs" "I j u" "g (j, xs ! (j - Suc k)) u = Inr t'" for j u t'
  proof -
    have "(x # xs) ! (j - k) = xs ! (j - Suc k)"
      using that(1) by (simp add: nth_Cons split: nat.splits) (metis Suc_diff_le diff_Suc_Suc nat.inject)
    then show ?thesis
      using Cons.prems(3) [of j u t'] that by simp
  qed
  ultimately have "I (Suc k + length xs) s'"
    using Cons.IH [OF rest] by blast
  then show ?case by simp
qed

lemma distance_cell_Inr:
  assumes "distance_cell gc vin data (i, k1) (j, k2) (G, V) = Inr (G', V')"
  shows "\<exists>c1 c2 d e. ix data k1 = Inr c1 \<and> ix data k2 = Inr c2 \<and>
           gc c1 c2 = Inr d \<and> vin c1 c2 = Inr e \<and>
           i < length G \<and> j < length (G ! i) \<and> i < length V \<and> j < length (V ! i) \<and>
           G' = G[i := (G ! i)[j := d]] \<and> V' = V[i := (V ! i)[j := e]]"
  using assms
  by (auto simp: distance_cell_def bind_result_def setitem2_def split: sum.splits if_splits)

lemma nth_update_cell:
  "i < length m \<Longrightarrow> j < length (m ! i) \<Longrightarrow>
     (m[i := (m ! i)[j := d]]) ! i' ! j' = (if i' = i \<and> j' = j then d else m ! i' ! j')"
  by (cases "i' = i") (simp_all add: nth_list_update)

lemma is_square_update_cell:
  "is_square n m \<Longrightarrow> is_square n (m[i := (m ! i)[j := d]])"
proof (cases "i < length m")
  case True
  assume "is_square n m"
  with True show ?thesis
    by (auto simp: is_square_def nth_list_update)
next
  case False
  assume "is_square n m"
  with False show ?thesis
    by (simp add: is_square_def)
qed

lemma cell_computed_update_other:
  "cell_computed metric data m i' j' \<Longrightarrow> i < length m \<Longrightarrow> j < length (m ! i) \<Longrightarrow>
     (i', j') \<noteq> (i, j) \<Longrightarrow> cell_computed metric data (m[i := (m ! i)[j := d]]) i' j'"
  by (auto simp: cell_computed_def nth_update_cell)

lemma cell_computed_update_same:
  "ix data (fst (data ! i)) = Inr c1 \<Longrightarrow> ix data (fst (data ! j)) = Inr c2 \<Longrightarrow>
     metric c1 c2 = Inr d \<Longrightarrow> i < length m \<Longrightarrow> j < length (m ! i) \<Longrightarrow>
     cell_computed metric data (m[i := (m ! i)[j := d]]) i j"
  by (simp add: cell_computed_def nth_update_cell)

lemma distance_row_invariant:
  assumes i: "i < length data"
    and run: "fold_result (distance_cell gc vin data (i, fst (data ! i)))
                (enumerate 0 (map fst data)) (G, V) = Inr (G', V')"
    and sq: "is_square (length data) G" "is_square (length data) V"
    and before: "\<forall>i'<i. \<forall>j<length data.
                   cell_computed gc data G i' j \<and> cell_computed vin data V i' j"
  shows "is_square (length data) G' \<and> is_square (length data) V' \<and>
         (\<forall>i'<Suc i. \<forall>j<length data.
            cell_computed gc data G' i' j \<and> cell_computed vin data V' i' j)"
proof -
  let ?n = "length data"
  let ?I = "\<lambda>j (s :: real list list \<times> real list list).
     is_square ?n (fst s) \<and> is_square ?n (snd s) \<and>
     (\<forall>i'<i. \<forall>j'<?n. cell_computed gc data (fst s) i' j' \<and> cell_computed vin data (snd s) i' j') \<and>
     (\<forall>j'<j. cell_computed gc data (fst s) i j' \<and> cell_computed vin data (snd s) i j')"
  have start: "?I 0 (G, V)"
    using sq before by simp
  have step: "?I (Suc j) t"
    if j: "0 \<le> j" "j < 0 + length (map fst data)" and inv: "?I j s"
      and cell: "distance_cell gc vin data (i, fst (data ! i)) (j, map fst data ! (j - 0)) s = Inr t"
    for j s t
  proof -
    obtain A B where s: "s = (A, B)" by (cases s)
    obtain A' B' where t: "t = (A', B')" by (cases t)
    have jn: "j < ?n" using j by simp
    from distance_cell_Inr [OF cell [unfolded s t]] jn obtain c1 c2 d e where
      c1: "ix data (fst (data ! i)) = Inr c1" and c2: "ix data (fst (data ! j)) = Inr c2"
      and d: "gc c1 c2 = Inr d" and e: "vin c1 c2 = Inr e"
      and iA: "i < length A" and jA: "j < length (A ! i)"
      and iB: "i < length B" and jB: "j < length (B ! i)"
      and A': "A' = A[i := (A ! i)[j := d]]" and B': "B' = B[i := (B ! i)[j := e]]"
      by auto
    have sqA: "is_square ?n A'" and sqB: "is_square ?n B'"
      using inv s A' B' by (simp_all add: is_square_update_cell)
    have rows: "cell_computed gc data A' i' j' \<and> cell_computed vin data B' i' j'"
      if "i' < i" "j' < ?n" for i' j'
      using inv s that A' B' iA jA iB jB
      by (simp add: cell_computed_update_other)
    have row: "cell_computed gc data A' i j' \<and> cell_computed vin data B' i j'"
      if "j' < Suc j" for j'
    proof (cases "j' = j")
      case True
      then show ?thesis
        using c1 c2 d e iA jA iB jB A' B' by (simp add: cell_computed_update_same)
    next
      case False
      with that have "j' < j" by simp
      with inv s False A' B' iA jA iB jB show ?thesis
        by (simp add: cell_computed_update_other)
    qed
    from sqA sqB rows row show ?thesis
      unfolding t by simp
  qed
  have "?I (0 + length (map fst data)) (G', V')"
    using run start step by (rule fold_result_enumerate_invariant [where I = ?I])
  then have fin: "is_square ?n G'" "is_square ?n V'"
    "\<forall>i'<i. \<forall>j'<?n. cell_computed gc data G' i' j' \<and> cell_computed vin data V' i' j'"
    "\<forall>j'<?n. cell_computed gc data G' i j' \<and> cell_computed vin data V' i j'"
    by simp_all
  have "cell_computed gc data G' i' j \<and> cell_computed vin data V' i' j"
    if "i' < Suc i" "j < ?n" for i' j
    using fin(3,4) that by (cases "i' = i") simp_all
  with fin(1,2) show ?thesis by blast
qed

lemma compute_physical_distance_cells:
  assumes run: "compute_physical_distance gc vin data = Inr (G, V)"
  shows "is_square (length data) G \<and> is_square (length data) V \<and>
         (\<forall>i<length data. \<forall>j<length data.
            cell_computed gc data G i j \<and> cell_computed vin data V i j)"
proof -
  let ?n = "length data"
  let ?I = "\<lambda>i (s :: real list list \<times> real list list).
     is_square ?n (fst s) \<and> is_square ?n (snd s) \<and>
     (\<forall>i'<i. \<forall>j<?n. cell_computed gc data (fst s) i' j \<and> cell_computed vin data (snd s) i' j)"
  have start: "?I 0 (np_zeros2 ?n, np_zeros2 ?n)"
    by (simp add: is_square_def np_zeros2_def)
  have step: "?I (Suc i) t"
    if i: "0 \<le> i" "i < 0 + length (map fst data)" and inv: "?I i s"
      and row: "fold_result (distance_cell gc vin data (i, map fst data ! (i - 0)))
                  (enumerate 0 (map fst data)) s = Inr t"
    for i s t
  proof -
    obtain A B where s: "s = (A, B)" by (cases s)
    obtain A' B' where t: "t = (A', B')" by (cases t)
    have "i < ?n" using i by simp
    moreover from this row s t
    have "fold_result (distance_cell gc vin data (i, fst (data ! i)))
            (enumerate 0 (map fst data)) (A, B) = Inr (A', B')"
      by simp
    ultimately show ?thesis
      using distance_row_invariant [of i data gc vin A B A' B'] inv s t by simp
  qed
  have "fold_result
           (\<lambda>r1. fold_result (distance_cell gc vin data r1) (enumerate 0 (map fst data)))
           (enumerate 0 (map fst data)) (np_zeros2 ?n, np_zeros2 ?n) = Inr (G, V)"
    using run by (simp add: compute_physical_distance_def Let_def)
  then have "?I (0 + length (map fst data)) (G, V)"
    using start step by (rule fold_result_enumerate_invariant [where I = ?I])
  then show ?thesis by simp
qed

lemma distance_matrix_of_cells:
  assumes m: "metric_like metric" and sq: "is_square n m"
    and cells: "\<forall>i<n. \<forall>j<n. cell_computed metric data m i j"
  shows "distance_matrix n m"
proof -
  have "m ! i ! i = 0 \<and> (\<forall>j<n. 0 \<le> m ! i ! j \<and> m ! i ! j = m ! j ! i)" if i: "i < n" for i
  proof -
    have "cell_computed metric data m i i" using cells i by simp
    then obtain c1 c2 where "ix data (fst (data ! i)) = Inr c1" "ix data (fst (data ! i)) = Inr c2"
      "metric c1 c2 = Inr (m ! i ! i)"
      unfolding cell_computed_def by blast
    then have "metric c1 c1 = Inr (m ! i ! i)" by simp
    with m have diag: "m ! i ! i = 0" unfolding metric_like_def by blast
    have "0 \<le> m ! i ! j \<and> m ! i ! j = m ! j ! i" if j: "j < n" for j
    proof -
      have "cell_computed metric data m i j" "cell_computed metric data m j i"
        using cells i j by simp_all
      then obtain c1 c2 c3 c4 where c: "ix data (fst (data ! i)) = Inr c1"
        "ix data (fst (data ! j)) = Inr c2" "ix data (fst (data ! j)) = Inr c3"
        "ix data (fst (data ! i)) = Inr c4"
        and ij: "metric c1 c2 = Inr (m ! i ! j)" and ji': "metric c3 c4 = Inr (m ! j ! i)"
        unfolding cell_computed_def by blast
      from c ji' have ji: "metric c2 c1 = Inr (m ! j ! i)" by simp
      from m have "metric c1 c2 = metric c2 c1" by (simp add: metric_like_def)
      with ij ji have "m ! i ! j = m ! j ! i" by simp
      moreover from m ij have "0 \<le> m ! i ! j" unfolding metric_like_def by blast
      ultimately show ?thesis by simp
    qed
    with diag show ?thesis by blast
  qed
  with sq show ?thesis by (simp add: distance_matrix_def)
qed

lemma np_max_Inr:
  assumes "np_max m = Inr mx"
  shows "mx \<in> set (concat m) \<and> (\<forall>a\<in>set (concat m). a \<le> mx)"
proof -
  from assms obtain a as where c: "concat m = a # as" and mx: "mx = fold max as a"
    by (auto simp: np_max_def split: list.splits)
  have "mx = Max (set (concat m))"
    unfolding c mx by (simp only: Max.set_eq_fold)
  moreover have "set (concat m) \<noteq> {}" using c by simp
  ultimately show ?thesis
    using Max_in [of "set (concat m)"] Max_ge [of "set (concat m)"] by simp
qed

lemma set_concat_square:
  assumes "is_square n m"
  shows "a \<in> set (concat m) \<longleftrightarrow> (\<exists>i<n. \<exists>j<n. a = m ! i ! j)"
proof
  assume "a \<in> set (concat m)"
  then obtain r where r: "r \<in> set m" and a: "a \<in> set r" by auto
  from r obtain i where i: "i < length m" "r = m ! i" by (auto simp: in_set_conv_nth)
  from a obtain j where j: "j < length r" "a = r ! j" by (auto simp: in_set_conv_nth)
  from assms i j show "\<exists>i<n. \<exists>j<n. a = m ! i ! j"
    by (auto simp: is_square_def)
next
  assume "\<exists>i<n. \<exists>j<n. a = m ! i ! j"
  then obtain i j where "i < n" "j < n" "a = m ! i ! j" by blast
  with assms have "m ! i \<in> set m" "a \<in> set (m ! i)"
    by (auto simp: is_square_def)
  then show "a \<in> set (concat m)" by auto
qed

lemma normed_unit:
  assumes dm: "distance_matrix n m" and mx: "np_max m = Inr mx" and pos: "0 < mx"
  shows "\<exists>nm. normed m = Inr nm \<and> unit_normalised n nm"
proof -
  let ?nm = "map (map (\<lambda>a. np_true_divide a mx)) m"
  have sq: "is_square n m" using dm by (simp add: distance_matrix_def)
  have nm: "normed m = Inr ?nm"
    using mx by (simp add: normed_def bind_result_def)
  have entry: "?nm ! i ! j = Some (m ! i ! j / mx)" if "i < n" "j < n" for i j
    using that sq pos by (simp add: is_square_def np_true_divide_def)
  have sqn: "is_square n ?nm"
    using sq by (simp add: is_square_def)
  have bounds: "\<exists>a. ?nm ! i ! j = Some a \<and> 0 \<le> a \<and> a \<le> 1" if ij: "i < n" "j < n" for i j
  proof -
    have "m ! i ! j \<in> set (concat m)"
      using ij set_concat_square [OF sq, of "m ! i ! j"] by blast
    with np_max_Inr [OF mx] have "m ! i ! j \<le> mx" by blast
    moreover have "0 \<le> m ! i ! j" using dm ij by (simp add: distance_matrix_def)
    ultimately show ?thesis
      using pos entry [OF ij] by simp
  qed
  from np_max_Inr [OF mx] obtain i j where ij: "i < n" "j < n" and "mx = m ! i ! j"
    using set_concat_square [OF sq, of mx] by blast
  with entry [OF ij] pos have "?nm ! i ! j = Some 1" by simp
  with ij have "\<exists>i<n. \<exists>j<n. ?nm ! i ! j = Some 1" by blast
  with sqn bounds nm show ?thesis
    unfolding unit_normalised_def by blast
qed

lemma singleton_list: "length xs = Suc 0 \<Longrightarrow> xs = [xs ! 0]"
  by (cases xs) simp_all

lemma normed_single_city:
  assumes "distance_matrix 1 m"
  shows "normed m = Inr [[None]]"
proof -
  from assms have "length m = Suc 0" "length (m ! 0) = Suc 0" "m ! 0 ! 0 = 0"
    by (simp_all add: distance_matrix_def is_square_def)
  then have "m = [[0]]"
    by (metis singleton_list)
  then show ?thesis
    by (simp add: normed_def np_max_def bind_result_def np_true_divide_def)
qed

lemma normed_no_city:
  assumes "distance_matrix 0 m"
  shows "normed m = Inl ValueError"
  using assms by (simp add: distance_matrix_def is_square_def normed_def np_max_def bind_result_def)

lemma fold_result_enumerate_total:
  assumes "I k s"
    and "\<And>j s. k \<le> j \<Longrightarrow> j < k + length xs \<Longrightarrow> I j s \<Longrightarrow>
           \<exists>t. g (j, xs ! (j - k)) s = Inr t \<and> I (Suc j) t"
  shows "\<exists>s'. fold_result g (enumerate k xs) s = Inr s' \<and> I (k + length xs) s'"
  using assms
proof (induction xs arbitrary: k s)
  case Nil
  then show ?case by simp
next
  case (Cons x xs)
  from Cons.prems(2) [of k s] Cons.prems(1) obtain t
    where t: "g (k, x) s = Inr t" and It: "I (Suc k) t"
    by auto
  have "\<exists>t'. g (j, xs ! (j - Suc k)) u = Inr t' \<and> I (Suc j) t'"
    if "Suc k \<le> j" "j < Suc k + length xs" "I j u" for j u
  proof -
    have "(x # xs) ! (j - k) = xs ! (j - Suc k)"
      using that(1) by (simp add: nth_Cons split: nat.splits) (metis Suc_diff_le diff_Suc_Suc nat.inject)
    then show ?thesis
      using Cons.prems(2) [of j u] that by simp
  qed
  with Cons.IH [of "Suc k" t] It obtain s' where
    "fold_result g (enumerate (Suc k) xs) t = Inr s'" "I (Suc k + length xs) s'"
    by blast
  with t show ?case by (simp add: bind_result_def)
qed

lemma filter_distinct_key:
  "distinct (map f xs) \<Longrightarrow> i < length xs \<Longrightarrow> filter (\<lambda>r. f r = f (xs ! i)) xs = [xs ! i]"
proof (induction xs arbitrary: i)
  case Nil
  then show ?case by simp
next
  case (Cons x xs)
  show ?case
  proof (cases i)
    case 0
    have "filter (\<lambda>r. f r = f x) xs = []"
      using Cons.prems(1) by (auto simp: filter_empty_conv) (metis imageI)
    with 0 show ?thesis by simp
  next
    case (Suc i')
    with Cons.prems have i': "i' < length xs" and "xs ! i' \<in> set xs" by simp_all
    with Cons.prems(1) have "f x \<noteq> f (xs ! i')" by auto
    with Cons.IH [OF _ i'] Cons.prems(1) Suc show ?thesis by simp
  qed
qed

lemma ix_distinct:
  "distinct (map fst data) \<Longrightarrow> i < length data \<Longrightarrow>
     ix data (fst (data ! i)) = Inr (snd (data ! i))"
  by (simp add: ix_def filter_distinct_key)

lemma compute_physical_distance_total:
  assumes d: "distinct (map fst data)"
    and gc: "\<forall>a b. \<exists>d. gc a b = Inr d" and vin: "\<forall>a b. \<exists>d. vin a b = Inr d"
  shows "\<exists>G V. compute_physical_distance gc vin data = Inr (G, V)"
proof -
  let ?n = "length data"
  let ?I = "\<lambda>(k::nat) (s :: real list list \<times> real list list).
     is_square ?n (fst s) \<and> is_square ?n (snd s)"
  have cell: "\<exists>t. distance_cell gc vin data (i, fst (data ! i)) (j, map fst data ! (j - 0)) s = Inr t
                \<and> ?I (Suc j) t"
    if i: "i < ?n" and j: "j < 0 + length (map fst data)" and inv: "?I j s" for i j s
  proof -
    obtain A B where s: "s = (A, B)" by (cases s)
    have jn: "j < ?n" using j by simp
    from gc obtain x where x: "gc (snd (data ! i)) (snd (data ! j)) = Inr x" by blast
    from vin obtain y where y: "vin (snd (data ! i)) (snd (data ! j)) = Inr y" by blast
    have rng: "i < length A" "j < length (A ! i)" "i < length B" "j < length (B ! i)"
      using inv s i jn by (simp_all add: is_square_def)
    have "distance_cell gc vin data (i, fst (data ! i)) (j, map fst data ! (j - 0)) s
        = Inr (A[i := (A ! i)[j := x]], B[i := (B ! i)[j := y]])"
      using rng jn x y
      by (simp add: distance_cell_def s ix_distinct [OF d i] ix_distinct [OF d jn]
          bind_result_def setitem2_def)
    moreover have "?I (Suc j) (A[i := (A ! i)[j := x]], B[i := (B ! i)[j := y]])"
      using inv s by (simp add: is_square_update_cell)
    ultimately show ?thesis by simp
  qed
  have row: "\<exists>t. fold_result (distance_cell gc vin data (i, map fst data ! (i - 0)))
                  (enumerate 0 (map fst data)) s = Inr t \<and> ?I (Suc i) t"
    if i: "i < 0 + length (map fst data)" and inv: "?I i s" for i s
  proof -
    have i': "i < ?n" using i by simp
    have "\<exists>s'. fold_result (distance_cell gc vin data (i, fst (data ! i)))
             (enumerate 0 (map fst data)) s = Inr s' \<and> ?I (0 + length (map fst data)) s'"
      using inv cell [OF i'] by (rule fold_result_enumerate_total [where I = ?I])
    then show ?thesis using i' by simp
  qed
  have "?I 0 (np_zeros2 ?n, np_zeros2 ?n)"
    by (simp add: is_square_def np_zeros2_def)
  then have "\<exists>s'. fold_result
           (\<lambda>r1. fold_result (distance_cell gc vin data r1) (enumerate 0 (map fst data)))
           (enumerate 0 (map fst data)) (np_zeros2 ?n, np_zeros2 ?n) = Inr s'
        \<and> ?I (0 + length (map fst data)) s'"
    using row by (rule fold_result_enumerate_total [where I = ?I])
  then show ?thesis
    by (auto simp: compute_physical_distance_def Let_def)
qed

text \<open>
  Claim C9, as amended. Let the two distance functions be symmetric, non-negative and
  zero between equal coordinates. With distinct row labels and distance functions that
  return a value the matrices are computed; and the matrices returned for \<open>N\<close> rows are
  \<open>N \<times> N\<close>, non-negative, symmetric and zero on the diagonal. When the largest entry
  of a matrix is positive, every entry of the normalised matrix lies between 0 and 1 and
  one of them is 1. For a single row the largest entry is zero and the normalised entry
  is no number; for no row at all the maximum does not exist.
\<close>

theorem distance_matrices_metric_normalised:
  assumes "metric_like great_circle" and "metric_like vincenty"
  shows
    "(distinct (map fst data) \<and> (\<forall>a b. \<exists>d. great_circle a b = Inr d) \<and>
        (\<forall>a b. \<exists>d. vincenty a b = Inr d) \<longrightarrow>
        (\<exists>G V. compute_physical_distance great_circle vincenty data = Inr (G, V))) \<and>
     (compute_physical_distance great_circle vincenty data = Inr (G, V) \<longrightarrow>
        distance_matrix (length data) G \<and> distance_matrix (length data) V \<and>
        normed_great_circle_distance great_circle vincenty data = normed G \<and>
        normed_vincenty_distance great_circle vincenty data = normed V \<and>
        (\<forall>mx. np_max G = Inr mx \<and> 0 < mx \<longrightarrow>
           (\<exists>nm. normed G = Inr nm \<and> unit_normalised (length data) nm)) \<and>
        (\<forall>mx. np_max V = Inr mx \<and> 0 < mx \<longrightarrow>
           (\<exists>nm. normed V = Inr nm \<and> unit_normalised (length data) nm)) \<and>
        (length data = 1 \<longrightarrow> normed G = Inr [[None]] \<and> normed V = Inr [[None]]) \<and>
        (data = [] \<longrightarrow> normed G = Inl ValueError \<and> normed V = Inl ValueError))"
proof -
  have total: "distinct (map fst data) \<and> (\<forall>a b. \<exists>d. great_circle a b = Inr d) \<and>
        (\<forall>a b. \<exists>d. vincenty a b = Inr d) \<longrightarrow>
        (\<exists>G V. compute_physical_distance great_circle vincenty data = Inr (G, V))"
    using compute_physical_distance_total [of data great_circle vincenty] by blast
  have partial: "distance_matrix (length data) G \<and> distance_matrix (length data) V \<and>
        normed_great_circle_distance great_circle vincenty data = normed G \<and>
        normed_vincenty_distance great_circle vincenty data = normed V \<and>
        (\<forall>mx. np_max G = Inr mx \<and> 0 < mx \<longrightarrow>
           (\<exists>nm. normed G = Inr nm \<and> unit_normalised (length data) nm)) \<and>
        (\<forall>mx. np_max V = Inr mx \<and> 0 < mx \<longrightarrow>
           (\<exists>nm. normed V = Inr nm \<and> unit_normalised (length data) nm)) \<and>
        (length data = 1 \<longrightarrow> normed G = Inr [[None]] \<and> normed V = Inr [[None]]) \<and>
        (data = [] \<longrightarrow> normed G = Inl ValueError \<and> normed V = Inl ValueError)"
    if run: "compute_physical_distance great_circle vincenty data = Inr (G, V)"
  proof -
    from compute_physical_distance_cells [OF run]
    have sq: "is_square (length data) G" "is_square (length data) V"
      and cg: "\<forall>i<length data. \<forall>j<length data. cell_computed great_circle data G i j"
      and cv: "\<forall>i<length data. \<forall>j<length data. cell_computed vincenty data V i j"
      by simp_all
    have dg: "distance_matrix (length data) G"
      using assms(1) sq(1) cg by (rule distance_matrix_of_cells)
    have dv: "distance_matrix (length data) V"
      using assms(2) sq(2) cv by (rule distance_matrix_of_cells)
    have ng: "normed_great_circle_distance great_circle vincenty data = normed G"
      and nv: "normed_vincenty_distance great_circle vincenty data = normed V"
      by (simp_all add: normed_great_circle_distance_def normed_vincenty_distance_def run
          bind_result_def)
    have ug: "\<forall>mx. np_max G = Inr mx \<and> 0 < mx \<longrightarrow>
           (\<exists>nm. normed G = Inr nm \<and> unit_normalised (length data) nm)"
      using normed_unit [OF dg] by blast
    have uv: "\<forall>mx. np_max V = Inr mx \<and> 0 < mx \<longrightarrow>
           (\<exists>nm. normed V = Inr nm \<and> unit_normalised (length data) nm)"
      using normed_unit [OF dv] by blast
    have one: "length data = 1 \<longrightarrow> normed G = Inr [[None]] \<and> normed V = Inr [[None]]"
      using dg dv normed_single_city by metis
    have none: "data = [] \<longrightarrow> normed G = Inl ValueError \<and> normed V = Inl ValueError"
      using dg dv normed_no_city by (metis list.size(3))
    from dg dv ng nv ug uv one none show ?thesis by blast
  qed
  from total partial show ?thesis by blast
qed

lemma example_one_city_distances:
  "compute_physical_distance example_metric example_metric example_one_city
     = Inr ([[0]], [[0]])"
  by (simp add: compute_physical_distance_def Let_def example_one_city_def distance_cell_def
      ix_def bind_result_def setitem2_def np_zeros2_def example_metric_def)

text \<open>
  Claim C9 as stated fails: for a data set of one city both matrices are \<open>[[0]]\<close>, and
  the entry of each normalised matrix is the quotient of zero by zero, which is no
  number between 0 and 1.
\<close>

theorem single_city_not_normalised:
  "compute_physical_distance example_metric example_metric example_one_city
     = Inr ([[0]], [[0]]) \<and>
   normed_vincenty_distance example_metric example_metric example_one_city = Inr [[None]] \<and>
   normed_great_circle_distance example_metric example_metric example_one_city = Inr [[None]]"
  by (simp add: example_one_city_distances normed_vincenty_distance_def
      normed_great_circle_distance_def normed_def np_max_def bind_result_def np_true_divide_def)

lemma example_two_cities_distances:
  "compute_physical_distance example_metric example_metric example_two_cities
     = Inr ([[0, 7], [7, 0]], [[0, 7], [7, 0]])"
  by (simp add: compute_physical_distance_def Let_def example_two_cities_def distance_cell_def
      ix_def bind_result_def setitem2_def np_zeros2_def example_metric_def numeral_2_eq_2)

lemma example_metric_like: "metric_like example_metric"
  by (auto simp: metric_like_def example_metric_def)

theorem distance_matrices_metric_normalised_witness:
  "metric_like example_metric \<and> distinct (map fst example_two_cities) \<and>
   (\<forall>a b. \<exists>d. example_metric a b = Inr d) \<and>
   compute_physical_distance example_metric example_metric example_two_cities
     = Inr ([[0, 7], [7, 0]], [[0, 7], [7, 0]]) \<and>
   np_max [[0, 7], [7, 0]] = Inr 7 \<and> (0::real) < 7 \<and>
   distance_matrix 2 [[0, 7], [7, 0]] \<and>
   (\<exists>nm. normed [[0, 7], [7, 0]] = Inr nm \<and> unit_normalised 2 nm) \<and>
   normed_vincenty_distance example_metric example_metric example_two_cities
     = normed [[0, 7], [7, 0]]"
proof -
  have d: "distinct (map fst example_two_cities)"
    and l: "length example_two_cities = 2"
    by (simp_all add: example_two_cities_def)
  have t: "\<forall>a b. \<exists>d. example_metric a b = Inr d"
    by (simp add: example_metric_def)
  have mx: "np_max [[0, 7], [7, 0]] = Inr 7"
    by (simp add: np_max_def)
  from distance_matrices_metric_normalised [OF example_metric_like example_metric_like,
      of example_two_cities "[[0, 7], [7, 0]]" "[[0, 7], [7, 0]]"]
    example_two_cities_distances mx l
  have "distance_matrix 2 [[0, 7], [7, 0]]"
    "\<exists>nm. normed [[0, 7], [7, 0]] = Inr nm \<and> unit_normalised 2 nm"
    "normed_vincenty_distance example_metric example_metric example_two_cities
       = normed [[0, 7], [7, 0]]"
    by simp_all
  with example_metric_like d t example_two_cities_distances mx show ?thesis by simp
qed

end
